theory Spec2Isabelle
  imports
    Complex_Main
    "HOL-Library.Word"
    "HOL-Library.List_Lexorder"
    "HOL-Library.Char_ord"
    "HOL-Library.Multiset"
begin

section \<open>JavaScript strings and values\<close>

text \<open>
  The server is \<^verbatim>\<open>web/server/index.mjs\<close>. A JavaScript string is held as the UTF-8
  encoding of its text, one \<^typ>\<open>char\<close> per byte, so \<^verbatim>\<open>Buffer.from(s, 'utf-8')\<close> is the
  byte view of the same list and the no-break space U+00A0 is the two bytes \<^verbatim>\<open>C2 A0\<close>.
  \<open>code_points\<close> cuts the bytes into characters: a byte that is not a continuation byte
  (\<^verbatim>\<open>10xxxxxx\<close>) begins a character and the continuation bytes after it belong to it.
\<close>

type_synonym byte = "8 word"

definition is_cont_byte :: "char \<Rightarrow> bool" where
  "is_cont_byte c = (128 \<le> (of_char c :: nat) \<and> (of_char c :: nat) < 192)"

fun code_points :: "string \<Rightarrow> string list" where
  "code_points [] = []"
| "code_points (c # cs) =
     (case code_points cs of
        [] \<Rightarrow> [[c]]
      | p # ps \<Rightarrow> (if is_cont_byte (hd p) then (c # p) # ps else [c] # p # ps))"

text \<open>
  The characters that \<^verbatim>\<open>trim()\<close> removes and that the class \<^verbatim>\<open>\s\<close> of a regular
  expression matches, the white space and the line terminators of ECMAScript: TAB, LF,
  VT, FF, CR, space, U+00A0, U+1680, U+2000 to U+200A, U+2028, U+2029, U+202F, U+205F,
  U+3000 and U+FEFF.
\<close>

definition white_space :: "string list" where
  "white_space =
     [[CHR 0x09], [CHR 0x0A], [CHR 0x0B], [CHR 0x0C], [CHR 0x0D], [CHR 0x20],
      [CHR 0xC2, CHR 0xA0],
      [CHR 0xE1, CHR 0x9A, CHR 0x80],
      [CHR 0xE2, CHR 0x80, CHR 0x80], [CHR 0xE2, CHR 0x80, CHR 0x81],
      [CHR 0xE2, CHR 0x80, CHR 0x82], [CHR 0xE2, CHR 0x80, CHR 0x83],
      [CHR 0xE2, CHR 0x80, CHR 0x84], [CHR 0xE2, CHR 0x80, CHR 0x85],
      [CHR 0xE2, CHR 0x80, CHR 0x86], [CHR 0xE2, CHR 0x80, CHR 0x87],
      [CHR 0xE2, CHR 0x80, CHR 0x88], [CHR 0xE2, CHR 0x80, CHR 0x89],
      [CHR 0xE2, CHR 0x80, CHR 0x8A],
      [CHR 0xE2, CHR 0x80, CHR 0xA8], [CHR 0xE2, CHR 0x80, CHR 0xA9],
      [CHR 0xE2, CHR 0x80, CHR 0xAF],
      [CHR 0xE2, CHR 0x81, CHR 0x9F],
      [CHR 0xE3, CHR 0x80, CHR 0x80],
      [CHR 0xEF, CHR 0xBB, CHR 0xBF]]"

definition is_ws :: "string \<Rightarrow> bool" where
  "is_ws ch = (ch \<in> set white_space)"

text \<open>The bytes that occur in the encoding of one of these characters.\<close>

definition ws_byte :: "char \<Rightarrow> bool" where
  "ws_byte c = (c \<in> set (concat white_space))"

text \<open>The line terminators, which \<^verbatim>\<open>.\<close> of a regular expression does not match: LF, CR,
  U+2028 and U+2029.\<close>

definition is_line_terminator :: "string \<Rightarrow> bool" where
  "is_line_terminator ch =
     (ch = [CHR 0x0A] \<or> ch = [CHR 0x0D] \<or> ch = [CHR 0xE2, CHR 0x80, CHR 0xA8]
      \<or> ch = [CHR 0xE2, CHR 0x80, CHR 0xA9])"

text \<open>\<^verbatim>\<open>s.trim()\<close>.\<close>

definition trim :: "string \<Rightarrow> string" where
  "trim s = concat (rev (dropWhile is_ws (rev (dropWhile is_ws (code_points s)))))"

text \<open>\<^verbatim>\<open>s.length\<close>, the number of UTF-16 code units: two for a character of four bytes,
  one for any other.\<close>

definition js_length :: "string \<Rightarrow> nat" where
  "js_length s =
     sum_list (map (\<lambda>ch. if 240 \<le> (of_char (hd ch) :: nat) then 2 else 1) (code_points s))"

text \<open>
  Letters without case. \<open>fold_case\<close> is the comparison a regular expression with the flag
  \<^verbatim>\<open>i\<close> (and no flag \<^verbatim>\<open>u\<close>) makes against a pattern of ASCII letters: the ASCII letters
  lose their case, and no character outside ASCII is taken for an ASCII letter.
\<close>

definition lower_char :: "char \<Rightarrow> char" where
  "lower_char c =
     (case map_of (zip ''ABCDEFGHIJKLMNOPQRSTUVWXYZ'' ''abcdefghijklmnopqrstuvwxyz'') c of
        None \<Rightarrow> c
      | Some l \<Rightarrow> l)"

definition fold_case :: "string \<Rightarrow> string" where
  "fold_case s = map lower_char s"

text \<open>
  \<^verbatim>\<open>s.toLowerCase()\<close> on the ASCII letters and on the two characters outside ASCII whose
  lower case holds an ASCII letter: the Kelvin sign U+212A becomes \<^verbatim>\<open>k\<close> and U+0130
  becomes \<^verbatim>\<open>i\<close> followed by U+0307. Every other character is left as it is; JavaScript
  lowers the other letters outside ASCII to letters outside ASCII, so the result is the
  same on every ASCII text and wherever it is compared with an ASCII text.
\<close>

definition lower_point :: "string \<Rightarrow> string" where
  "lower_point ch =
     (if ch = [CHR 0xE2, CHR 0x84, CHR 0xAA] then ''k''
      else if ch = [CHR 0xC4, CHR 0xB0] then [CHR ''i'', CHR 0xCC, CHR 0x87]
      else map lower_char ch)"

definition toLowerCase :: "string \<Rightarrow> string" where
  "toLowerCase s = concat (map lower_point (code_points s))"

text \<open>\<^verbatim>\<open>s.split(d)\<close> for a one-character separator: never empty, \<^verbatim>\<open>''.split(d)\<close> is \<^verbatim>\<open>['']\<close>.\<close>

fun split_on :: "char \<Rightarrow> string \<Rightarrow> string list" where
  "split_on d [] = [[]]"
| "split_on d (c # cs) =
     (if c = d then [] # split_on d cs
      else (case split_on d cs of [] \<Rightarrow> [[c]] | p # ps \<Rightarrow> (c # p) # ps))"

text \<open>\<^verbatim>\<open>parts.join(sep)\<close>.\<close>

fun join :: "string \<Rightarrow> string list \<Rightarrow> string" where
  "join sep [] = []"
| "join sep [x] = x"
| "join sep (x # y # ys) = x @ sep @ join sep (y # ys)"

text \<open>\<^verbatim>\<open>s.replace(pat, rep)\<close> with a string pattern: the first occurrence only.\<close>

fun replace_first :: "string \<Rightarrow> string \<Rightarrow> string \<Rightarrow> string" where
  "replace_first pat rep [] = (if pat = [] then rep else [])"
| "replace_first pat rep (c # cs) =
     (if take (length pat) (c # cs) = pat then rep @ drop (length pat) (c # cs)
      else c # replace_first pat rep cs)"

text \<open>\<^verbatim>\<open>String(n)\<close> for a non-negative integer below \<open>10\<^sup>2\<^sup>1\<close>: its decimal digits.\<close>

definition digit_char :: "nat \<Rightarrow> char" where
  "digit_char d = ''0123456789'' ! d"

fun decimal :: "nat \<Rightarrow> string" where
  "decimal n = (if n < 10 then [digit_char n] else decimal (n div 10) @ [digit_char (n mod 10)])"

declare decimal.simps [simp del]

text \<open>
  A JavaScript number is not-a-number, an infinity (\<open>True\<close> for the positive one) or a
  finite value; every finite double is a rational, and the comparisons the server makes
  on finite numbers are the comparisons of these rationals.
\<close>

datatype jsnum = NaN | Infinite bool | Finite rat

text \<open>The values \<^verbatim>\<open>JSON.parse\<close> returns, and \<^verbatim>\<open>undefined\<close>. An object is the list of its
  own properties in insertion order, each key once.\<close>

datatype jsval =
    JUndefined
  | JNull
  | JBool bool
  | JNum jsnum
  | JStr string
  | JArr "jsval list"
  | JObj "(string \<times> jsval) list"

text \<open>
  What a JavaScript call can throw here. A function that can throw returns
  \<open>Inl error\<close>; a \<^verbatim>\<open>try\<close>/\<^verbatim>\<open>catch\<close> is a case distinction on that result.
\<close>

datatype js_error = TypeError | URIError | SyntaxError | DecipherError

text \<open>
  The library functions of the Node runtime that the server calls and that are not
  modelled further. Every theorem below holds for whatever these functions compute.
  \<^item> \<open>number_to_string\<close>: \<^verbatim>\<open>String(x)\<close> on a number;
  \<^item> \<open>string_to_number\<close>: \<^verbatim>\<open>Number(s)\<close> on a string;
  \<^item> \<open>json_stringify\<close>: \<^verbatim>\<open>JSON.stringify(v)\<close>;
  \<^item> \<open>json_parse\<close>: \<^verbatim>\<open>JSON.parse(buf.toString('utf-8'))\<close>, \<open>None\<close> when it throws;
  \<^item> \<open>sha256\<close>: \<^verbatim>\<open>crypto.createHash('sha256').update(data).digest()\<close>;
  \<^item> \<open>gcm_encrypt key iv plaintext\<close>: AES-256-GCM, the ciphertext and the tag;
  \<^item> \<open>gcm_decrypt key iv ciphertext tag\<close>: \<open>None\<close> when \<^verbatim>\<open>decipher.final()\<close> throws;
  \<^item> \<open>base64_lenient\<close>: what \<^verbatim>\<open>Buffer.from(s, 'base64')\<close> returns on a text that is
    not well-formed base64.
\<close>

record runtime =
  number_to_string :: "jsnum \<Rightarrow> string"
  string_to_number :: "string \<Rightarrow> jsnum"
  json_stringify :: "jsval \<Rightarrow> string"
  json_parse :: "byte list \<Rightarrow> jsval option"
  sha256 :: "byte list \<Rightarrow> byte list"
  gcm_encrypt :: "byte list \<Rightarrow> byte list \<Rightarrow> byte list \<Rightarrow> byte list \<times> byte list"
  gcm_decrypt :: "byte list \<Rightarrow> byte list \<Rightarrow> byte list \<Rightarrow> byte list \<Rightarrow> byte list option"
  base64_lenient :: "string \<Rightarrow> byte list"

definition utf8 :: "string \<Rightarrow> byte list" where
  "utf8 s = map (\<lambda>c. of_nat (of_char c)) s"

text \<open>The results of a list of calls, or the error of the first one that throws.\<close>

fun first_error :: "('e + 'a) list \<Rightarrow> 'e + 'a list" where
  "first_error [] = Inr []"
| "first_error (Inl e # rs) = Inl e"
| "first_error (Inr x # rs) = (case first_error rs of Inl e \<Rightarrow> Inl e | Inr xs \<Rightarrow> Inr (x # xs))"

text \<open>
  \<^verbatim>\<open>String(v)\<close>. An array joins its elements with a comma, \<^verbatim>\<open>null\<close> and \<^verbatim>\<open>undefined\<close>
  elements as the empty text. An object is converted by its \<^verbatim>\<open>toString\<close>: the one of
  \<^verbatim>\<open>Object.prototype\<close> gives \<^verbatim>\<open>[object Object]\<close>; an own property of that name, which in
  a value read from JSON is never a function, hides it, \<^verbatim>\<open>valueOf\<close> then gives no
  primitive either, and the conversion throws \<^verbatim>\<open>TypeError\<close>.
\<close>

fun js_string :: "runtime \<Rightarrow> jsval \<Rightarrow> js_error + string" where
  "js_string rt JUndefined = Inr ''undefined''"
| "js_string rt JNull = Inr ''null''"
| "js_string rt (JBool b) = Inr (if b then ''true'' else ''false'')"
| "js_string rt (JNum n) = Inr (number_to_string rt n)"
| "js_string rt (JStr s) = Inr s"
| "js_string rt (JArr xs) =
     (case first_error
             (map (\<lambda>x. if x = JNull \<or> x = JUndefined then Inr [] else js_string rt x) xs) of
        Inl e \<Rightarrow> Inl e
      | Inr parts \<Rightarrow> Inr (join '','' parts))"
| "js_string rt (JObj kvs) =
     (if ''toString'' \<in> set (map fst kvs) then Inl TypeError else Inr ''[object Object]'')"

text \<open>\<^verbatim>\<open>Number(v)\<close>: an array or an object is converted to a string first, as above.\<close>

definition js_number :: "runtime \<Rightarrow> jsval \<Rightarrow> js_error + jsnum" where
  "js_number rt v =
     (case v of
        JUndefined \<Rightarrow> Inr NaN
      | JNull \<Rightarrow> Inr (Finite 0)
      | JBool b \<Rightarrow> Inr (Finite (if b then 1 else 0))
      | JNum n \<Rightarrow> Inr n
      | JStr s \<Rightarrow> Inr (string_to_number rt s)
      | JArr xs \<Rightarrow>
          (case js_string rt (JArr xs) of Inl e \<Rightarrow> Inl e | Inr s \<Rightarrow> Inr (string_to_number rt s))
      | JObj kvs \<Rightarrow>
          (case js_string rt (JObj kvs) of Inl e \<Rightarrow> Inl e | Inr s \<Rightarrow> Inr (string_to_number rt s)))"

text \<open>\<^verbatim>\<open>Boolean(v)\<close>.\<close>

definition js_truthy :: "jsval \<Rightarrow> bool" where
  "js_truthy v =
     (case v of
        JUndefined \<Rightarrow> False
      | JNull \<Rightarrow> False
      | JBool b \<Rightarrow> b
      | JNum n \<Rightarrow> n \<noteq> NaN \<and> n \<noteq> Finite 0
      | JStr s \<Rightarrow> s \<noteq> []
      | JArr xs \<Rightarrow> True
      | JObj kvs \<Rightarrow> True)"

text \<open>\<^verbatim>\<open>v ?? d\<close> and \<^verbatim>\<open>v?.k\<close>, the own property \<open>k\<close> of an object read from JSON (no name the
  server reads this way is a property of \<^verbatim>\<open>Object.prototype\<close> or \<^verbatim>\<open>Array.prototype\<close>).\<close>

definition nullish_or :: "jsval \<Rightarrow> jsval \<Rightarrow> jsval" where
  "nullish_or v d = (if v = JUndefined \<or> v = JNull then d else v)"

definition get_prop :: "jsval \<Rightarrow> string \<Rightarrow> jsval" where
  "get_prop v k =
     (case v of
        JObj kvs \<Rightarrow> (case map_of kvs k of None \<Rightarrow> JUndefined | Some x \<Rightarrow> x)
      | _ \<Rightarrow> JUndefined)"

text \<open>\<^verbatim>\<open>{...a, ...b}\<close> on objects held as key-value lists in insertion order: a key of
  \<open>b\<close> that \<open>a\<close> has keeps its place and takes the new value.\<close>

fun obj_set :: "string \<Rightarrow> jsval \<Rightarrow> (string \<times> jsval) list \<Rightarrow> (string \<times> jsval) list" where
  "obj_set k v [] = [(k, v)]"
| "obj_set k v ((k', v') # kvs) = (if k' = k then (k, v) # kvs else (k', v') # obj_set k v kvs)"

definition obj_spread :: "(string \<times> jsval) list \<Rightarrow> (string \<times> jsval) list \<Rightarrow> (string \<times> jsval) list" where
  "obj_spread a b = foldl (\<lambda>acc (k, v). obj_set k v acc) a b"

section \<open>Requests and responses\<close>

text \<open>
  What a handler reads of a request: the method, the path (without the query), the
  headers under their lower-cased names (each value the string Node made of it), the
  peer address of the socket and the body as \<^verbatim>\<open>express.json()\<close> parsed it. A response
  is a status and a JSON body.
\<close>

record request =
  req_method :: string
  req_path :: string
  req_headers :: "string \<rightharpoonup> string"
  req_remoteAddress :: "string option"
  req_body :: jsval

datatype response = Response nat jsval


definition error_body :: "string \<Rightarrow> jsval" where
  "error_body msg = JObj [(''error'', JStr msg)]"

text \<open>
  The error handler registered last, \<^verbatim>\<open>app.use((err, _req, res, _next) => ...)\<close>: an
  error without an SQLite code is answered with 500. \<open>answer\<close> is what the caller gets
  from a handler that returns a response or throws.
\<close>

definition error_handler :: "js_error \<Rightarrow> response" where
  "error_handler err = Response 500 (error_body ''internal server error'')"

definition answer :: "js_error + response \<Rightarrow> response" where
  "answer r = (case r of Inl err \<Rightarrow> error_handler err | Inr res \<Rightarrow> res)"

text \<open>\<^verbatim>\<open>String(req.headers[name] ?? '')\<close>.\<close>

definition header_text :: "request \<Rightarrow> string \<Rightarrow> string" where
  "header_text req name = (case req_headers req name of None \<Rightarrow> [] | Some v \<Rightarrow> v)"

text \<open>The Principal a request resolves to: \<^verbatim>\<open>{ username, role }\<close>, the role being
  \<^verbatim>\<open>'admin'\<close> or \<^verbatim>\<open>'user'\<close>.\<close>

datatype role = Admin | User

record principal =
  username :: string
  role :: role

section \<open>ChangeEventBus\<close>

text \<open>
  \<^verbatim>\<open>documentEventClients\<close> is a JavaScript \<^verbatim>\<open>Set\<close> of open responses, here the list of
  their connection numbers in insertion order; \<^verbatim>\<open>documentEventSequence\<close> is the counter.
  \<open>written c\<close> is what has been written to connection \<open>c\<close> so far, oldest first.
\<close>

record bus =
  documentEventClients :: "nat list"
  documentEventSequence :: nat
  written :: "nat \<Rightarrow> string list"

definition set_add :: "nat \<Rightarrow> nat list \<Rightarrow> nat list" where
  "set_add c cs = (if c \<in> set cs then cs else cs @ [c])"

definition set_delete :: "nat \<Rightarrow> nat list \<Rightarrow> nat list" where
  "set_delete c cs = removeAll c cs"

definition write_to :: "nat \<Rightarrow> string \<Rightarrow> bus \<Rightarrow> bus" where
  "write_to c chunk st = st\<lparr>written := (written st)(c := written st c @ [chunk])\<rparr>"

text \<open>\<^verbatim>\<open>asIsoNow()\<close>; \<open>clock\<close> is \<^verbatim>\<open>new Date().toISOString()\<close>.\<close>

definition asIsoNow :: "string \<Rightarrow> string" where
  "asIsoNow clock = replace_first ''.000Z'' [] clock"

text \<open>The text of one server-sent event with the id \<open>n\<close>.\<close>

definition sse_frame :: "runtime \<Rightarrow> nat \<Rightarrow> string \<Rightarrow> jsval \<Rightarrow> string" where
  "sse_frame rt n eventName payload =
     ''id: '' @ decimal n @ [CHR 0x0A] @ ''event: '' @ eventName @ [CHR 0x0A]
       @ ''data: '' @ json_stringify rt payload @ [CHR 0x0A, CHR 0x0A]"

text \<open>\<^verbatim>\<open>toSseData\<close>: increments the counter, then builds the text with the new value.\<close>

definition toSseData :: "runtime \<Rightarrow> string \<Rightarrow> jsval \<Rightarrow> bus \<Rightarrow> string \<times> bus" where
  "toSseData rt eventName payload st =
     (let n = documentEventSequence st + 1
      in (sse_frame rt n eventName payload, st\<lparr>documentEventSequence := n\<rparr>))"

text \<open>
  The loop of \<^verbatim>\<open>broadcastDocumentsChanged\<close> over the set. \<open>fails c\<close> says that
  \<^verbatim>\<open>client.write\<close> throws on connection \<open>c\<close>; the \<^verbatim>\<open>catch\<close> deletes that client. A
  \<^verbatim>\<open>for...of\<close> over a \<^verbatim>\<open>Set\<close> visits the entries in insertion order, and the loop
  deletes only the entry it is visiting, so the entries still to visit are the rest of
  the list.
\<close>

fun deliver :: "(nat \<Rightarrow> bool) \<Rightarrow> string \<Rightarrow> nat list \<Rightarrow> bus \<Rightarrow> bus" where
  "deliver fails body [] st = st"
| "deliver fails body (c # cs) st =
     deliver fails body cs
       (if fails c then st\<lparr>documentEventClients := set_delete c (documentEventClients st)\<rparr>
        else write_to c body st)"

definition documents_changed_data :: "string \<Rightarrow> (string \<times> jsval) list \<Rightarrow> jsval" where
  "documents_changed_data clock payload =
     JObj (obj_spread
       [(''event'', JStr ''documents_changed''), (''occurredAt'', JStr (asIsoNow clock))]
       payload)"

definition broadcastDocumentsChanged ::
  "runtime \<Rightarrow> string \<Rightarrow> (nat \<Rightarrow> bool) \<Rightarrow> (string \<times> jsval) list \<Rightarrow> bus \<Rightarrow> bus" where
  "broadcastDocumentsChanged rt clock fails payload st =
     (if length (documentEventClients st) = 0 then st
      else
        (let (body, st1) = toSseData rt ''documents_changed'' (documents_changed_data clock payload) st
         in deliver fails body (documentEventClients st1) st1))"

text \<open>The handler of \<^verbatim>\<open>GET /api/documents/events\<close>, and the \<^verbatim>\<open>close\<close> callback.\<close>

definition subscribe_events :: "runtime \<Rightarrow> string \<Rightarrow> nat \<Rightarrow> bus \<Rightarrow> bus" where
  "subscribe_events rt clock c st =
     (let st1 = st\<lparr>documentEventClients := set_add c (documentEventClients st)\<rparr>;
          st2 = write_to c (''retry: 3000'' @ [CHR 0x0A, CHR 0x0A]) st1;
          (body, st3) = toSseData rt ''documents_changed''
             (JObj [(''event'', JStr ''documents_changed''), (''initial'', JBool True),
                    (''occurredAt'', JStr (asIsoNow clock))]) st2
      in write_to c body st3)"

definition on_close :: "nat \<Rightarrow> bus \<Rightarrow> bus" where
  "on_close c st = st\<lparr>documentEventClients := set_delete c (documentEventClients st)\<rparr>"

text \<open>What happens to the bus over time: publishes, new subscribers, closed connections.\<close>

datatype bus_op =
    Publish "(string \<times> jsval) list" "nat \<Rightarrow> bool" string
  | Subscribe nat string
  | Closed nat

fun bus_step :: "runtime \<Rightarrow> bus_op \<Rightarrow> bus \<Rightarrow> bus" where
  "bus_step rt (Publish payload fails clock) st = broadcastDocumentsChanged rt clock fails payload st"
| "bus_step rt (Subscribe c clock) st = subscribe_events rt clock c st"
| "bus_step rt (Closed c) st = on_close c st"

fun bus_run :: "runtime \<Rightarrow> bus_op list \<Rightarrow> bus \<Rightarrow> bus" where
  "bus_run rt [] st = st"
| "bus_run rt (x # xs) st = bus_run rt xs (bus_step rt x st)"

text \<open>
  For a connection \<open>c\<close> and a run of operations: \<open>keeps c x\<close> says that \<open>x\<close> leaves
  \<open>c\<close> registered (no failed write to it, no close of it, and it does not connect
  again); \<open>published\<close> lists the data of the publishes of the run, and \<open>publish_ids\<close> the
  value the counter takes at each of them when it starts from \<open>n\<close> and a subscriber is
  registered throughout.
\<close>

fun keeps :: "nat \<Rightarrow> bus_op \<Rightarrow> bool" where
  "keeps c (Publish payload fails clock) = (\<not> fails c)"
| "keeps c (Subscribe c' clock) = (c' \<noteq> c)"
| "keeps c (Closed c') = (c' \<noteq> c)"

fun published :: "bus_op list \<Rightarrow> jsval list" where
  "published [] = []"
| "published (Publish payload fails clock # ops) = documents_changed_data clock payload # published ops"
| "published (Subscribe c clock # ops) = published ops"
| "published (Closed c # ops) = published ops"

fun publish_ids :: "bus_op list \<Rightarrow> nat \<Rightarrow> nat list" where
  "publish_ids [] n = []"
| "publish_ids (Publish payload fails clock # ops) n = Suc n # publish_ids ops (Suc n)"
| "publish_ids (Subscribe c clock # ops) n = publish_ids ops (Suc n)"
| "publish_ids (Closed c # ops) n = publish_ids ops n"

section \<open>The ingestion trigger\<close>








section \<open>SecretDeriver\<close>

text \<open>
  What \<^verbatim>\<open>resolveServerFingerprint\<close> reads of the machine. \<open>host_cpus\<close> is
  \<^verbatim>\<open>os.cpus()?.length\<close> (\<open>None\<close> for \<^verbatim>\<open>undefined\<close>). \<open>host_interfaces\<close> is
  \<^verbatim>\<open>Object.values(os.networkInterfaces())\<close>: \<open>None\<close> when the call throws, otherwise one
  entry per interface, each the list of its addresses (\<open>None\<close> for a missing list), each
  address with its \<^verbatim>\<open>mac\<close> (\<open>None\<close> for a missing one).
\<close>

record host =
  host_name :: string
  host_platform :: string
  host_release :: string
  host_arch :: string
  host_cpus :: "nat option"
  host_interfaces :: "string option list option list option"

text \<open>The environment variables the key is derived from (\<open>None\<close>: not set).\<close>

record secret_env =
  API_SESSION_SECRET :: "string option"
  APP_SECRET :: "string option"

text \<open>The \<^verbatim>\<open>macAddresses\<close> of \<^verbatim>\<open>resolveServerFingerprint\<close>: every address's \<^verbatim>\<open>mac\<close>,
  trimmed and in lower case (\<open>listed_macs\<close>), without the empty and the all-zero ones,
  sorted.\<close>

definition listed_macs :: "host \<Rightarrow> string list" where
  "listed_macs h =
     (case host_interfaces h of
        None \<Rightarrow> []
      | Some interfaces \<Rightarrow>
          map (\<lambda>item. toLowerCase (trim (case item of None \<Rightarrow> [] | Some m \<Rightarrow> m)))
            (concat (map (\<lambda>items. case items of None \<Rightarrow> [] | Some xs \<Rightarrow> xs) interfaces)))"

definition macAddresses :: "host \<Rightarrow> string list" where
  "macAddresses h =
     sort (filter (\<lambda>mac. mac \<noteq> [] \<and> mac \<noteq> ''00:00:00:00:00:00'') (listed_macs h))"

definition resolveServerFingerprint :: "host \<Rightarrow> string" where
  "resolveServerFingerprint h =
     (let cpus = (case host_cpus h of None \<Rightarrow> 0 | Some n \<Rightarrow> n);
          fingerprintParts =
            filter (\<lambda>part. part \<noteq> [])
              (map trim ([host_name h, host_platform h, host_release h, host_arch h, decimal cpus]
                          @ macAddresses h))
      in if length fingerprintParts = 0 then [] else join ''|'' fingerprintParts)"

definition configuredSecret :: "secret_env \<Rightarrow> string" where
  "configuredSecret env =
     trim (case API_SESSION_SECRET env of
             Some s \<Rightarrow> s
           | None \<Rightarrow> (case APP_SECRET env of Some s \<Rightarrow> s | None \<Rightarrow> []))"

text \<open>
  \<^verbatim>\<open>getSessionSecretKey\<close>. \<open>randomBytes\<close> is the value of \<^verbatim>\<open>crypto.randomBytes(32)\<close>;
  the result is the key and the warnings written to the console
  (\<^verbatim>\<open>hasWarnedInsecureSessionSecret\<close> is false when the module calls the function).
\<close>

definition getSessionSecretKey ::
  "runtime \<Rightarrow> secret_env \<Rightarrow> host \<Rightarrow> byte list \<Rightarrow> byte list \<times> string list" where
  "getSessionSecretKey rt env h randomBytes =
     (if configuredSecret env \<noteq> [] then (sha256 rt (utf8 (configuredSecret env)), [])
      else
        (let fingerprint = resolveServerFingerprint h
         in if fingerprint \<noteq> []
            then (sha256 rt (utf8 (''server-fingerprint:'' @ fingerprint)),
                  [''[api] API_SESSION_SECRET is not set. Using server-fingerprint-derived secret for session cookies.''])
            else (sha256 rt randomBytes,
                  [''[api] API_SESSION_SECRET is not set. Using runtime-random secret for session cookies.''])))"

text \<open>
  The fingerprint as the specification words it, for comparison: ``hostname + platform +
  OS release + architecture + CPU count + sorted de-duplicated non-zero hardware MAC
  addresses''.
\<close>

definition spec_fingerprint :: "host \<Rightarrow> string" where
  "spec_fingerprint h =
     (let cpus = (case host_cpus h of None \<Rightarrow> 0 | Some n \<Rightarrow> n);
          parts =
            filter (\<lambda>part. part \<noteq> [])
              (map trim ([host_name h, host_platform h, host_release h, host_arch h, decimal cpus]
                          @ remdups (macAddresses h)))
      in join ''|'' parts)"

section \<open>SessionCodec\<close>

subsection \<open>Base64\<close>

text \<open>
  \<^verbatim>\<open>buffer.toString('base64')\<close>: three bytes give four characters of the alphabet, a
  last group of one or two bytes is padded with \<^verbatim>\<open>=\<close>.
\<close>

definition b64_alphabet :: string where
  "b64_alphabet = ''ABCDEFGHIJKLMNOPQRSTUVWXYZabcdefghijklmnopqrstuvwxyz0123456789+/''"

definition b64_char :: "nat \<Rightarrow> char" where
  "b64_char i = b64_alphabet ! i"

fun index_of :: "'a \<Rightarrow> 'a list \<Rightarrow> nat option" where
  "index_of c [] = None"
| "index_of c (x # xs) = (if x = c then Some 0 else map_option Suc (index_of c xs))"

definition b64_index :: "char \<Rightarrow> nat option" where
  "b64_index c = index_of c b64_alphabet"

fun b64_encode :: "byte list \<Rightarrow> string" where
  "b64_encode (a # b # c # rest) =
     b64_char (unat a div 4) # b64_char (unat a mod 4 * 16 + unat b div 16)
       # b64_char (unat b mod 16 * 4 + unat c div 64) # b64_char (unat c mod 64)
       # b64_encode rest"
| "b64_encode [a, b] =
     [b64_char (unat a div 4), b64_char (unat a mod 4 * 16 + unat b div 16),
      b64_char (unat b mod 16 * 4), CHR ''='']"
| "b64_encode [a] =
     [b64_char (unat a div 4), b64_char (unat a mod 4 * 16), CHR ''='', CHR ''='']"
| "b64_encode [] = []"

text \<open>
  Decoding a well-formed text: groups of four characters of the alphabet, the last one
  possibly padded. \<open>None\<close> on any other text.
\<close>

fun b64_decode :: "string \<Rightarrow> byte list option" where
  "b64_decode [] = Some []"
| "b64_decode (c1 # c2 # c3 # c4 # rest) =
     (case (b64_index c1, b64_index c2) of
        (Some i1, Some i2) \<Rightarrow>
          (if c3 = CHR ''='' \<and> c4 = CHR ''='' \<and> rest = []
           then Some [of_nat (i1 * 4 + i2 div 16)]
           else
             (case b64_index c3 of
                None \<Rightarrow> None
              | Some i3 \<Rightarrow>
                  (if c4 = CHR ''='' \<and> rest = []
                   then Some [of_nat (i1 * 4 + i2 div 16), of_nat (i2 mod 16 * 16 + i3 div 4)]
                   else
                     (case b64_index c4 of
                        None \<Rightarrow> None
                      | Some i4 \<Rightarrow>
                          (case b64_decode rest of
                             None \<Rightarrow> None
                           | Some bs \<Rightarrow>
                               Some (of_nat (i1 * 4 + i2 div 16)
                                      # of_nat (i2 mod 16 * 16 + i3 div 4)
                                      # of_nat (i3 mod 4 * 64 + i4) # bs))))))
      | _ \<Rightarrow> None)"
| "b64_decode (c1 # cs) = None"

text \<open>
  \<^verbatim>\<open>Buffer.from(text, 'base64')\<close> never throws: a well-formed text gives its bytes, any
  other text gives what the runtime's lenient decoder makes of it.
\<close>

definition buffer_from_base64 :: "runtime \<Rightarrow> string \<Rightarrow> byte list" where
  "buffer_from_base64 rt text =
     (case b64_decode text of Some bs \<Rightarrow> bs | None \<Rightarrow> base64_lenient rt text)"

subsection \<open>The URL-safe form\<close>

definition url_char :: "char \<Rightarrow> char" where
  "url_char c = (if c = CHR ''+'' then CHR ''-'' else if c = CHR ''/'' then CHR ''_'' else c)"

definition std_char :: "char \<Rightarrow> char" where
  "std_char c = (if c = CHR ''-'' then CHR ''+'' else if c = CHR ''_'' then CHR ''/'' else c)"

text \<open>\<^verbatim>\<open>toBase64Url\<close>: the two replacements, then the padding at the end is removed.\<close>

definition toBase64Url :: "byte list \<Rightarrow> string" where
  "toBase64Url buffer =
     rev (dropWhile (\<lambda>c. c = CHR ''='') (rev (map url_char (b64_encode buffer))))"

definition fromBase64Url :: "runtime \<Rightarrow> string \<Rightarrow> byte list" where
  "fromBase64Url rt v =
     (let text = trim v
      in if text = [] then []
         else
           (let normalized = map std_char text;
                padLength = (4 - js_length normalized mod 4) mod 4;
                padded = normalized @ replicate padLength CHR ''=''
            in buffer_from_base64 rt padded))"

subsection \<open>Sealing and opening\<close>

text \<open>\<^verbatim>\<open>encryptSessionPayload\<close>; \<open>iv\<close> is the value of \<^verbatim>\<open>crypto.randomBytes(12)\<close>.\<close>

definition encryptSessionPayload :: "runtime \<Rightarrow> byte list \<Rightarrow> byte list \<Rightarrow> jsval \<Rightarrow> string" where
  "encryptSessionPayload rt sessionSecretKey iv payload =
     (let plaintext = utf8 (json_stringify rt payload);
          (encrypted, authTag) = gcm_encrypt rt sessionSecretKey iv plaintext
      in toBase64Url iv @ ''.'' @ toBase64Url encrypted @ ''.'' @ toBase64Url authTag)"

text \<open>\<^verbatim>\<open>payload && typeof payload === 'object'\<close>: an object or an array, not \<^verbatim>\<open>null\<close>.\<close>

definition js_typeof :: "jsval \<Rightarrow> string" where
  "js_typeof v =
     (case v of
        JUndefined \<Rightarrow> ''undefined''
      | JNull \<Rightarrow> ''object''
      | JBool b \<Rightarrow> ''boolean''
      | JNum n \<Rightarrow> ''number''
      | JStr s \<Rightarrow> ''string''
      | JArr xs \<Rightarrow> ''object''
      | JObj kvs \<Rightarrow> ''object'')"

text \<open>The body of the \<^verbatim>\<open>try\<close> block of \<^verbatim>\<open>decryptSessionPayload\<close>, on the three parts.\<close>

definition decrypt_parts ::
  "runtime \<Rightarrow> byte list \<Rightarrow> string \<Rightarrow> string \<Rightarrow> string \<Rightarrow> js_error + jsval" where
  "decrypt_parts rt sessionSecretKey p0 p1 p2 =
     (let iv = fromBase64Url rt p0;
          encrypted = fromBase64Url rt p1;
          authTag = fromBase64Url rt p2
      in if length iv \<noteq> 12 \<or> length authTag \<noteq> 16 then Inr JNull
         else
           (case gcm_decrypt rt sessionSecretKey iv encrypted authTag of
              None \<Rightarrow> Inl DecipherError
            | Some decrypted \<Rightarrow>
                (case json_parse rt decrypted of
                   None \<Rightarrow> Inl SyntaxError
                 | Some payload \<Rightarrow>
                     Inr (if js_truthy payload \<and> js_typeof payload = ''object''
                          then payload else JNull))))"

text \<open>\<^verbatim>\<open>decryptSessionPayload\<close>: \<open>Inr JNull\<close> is the \<^verbatim>\<open>null\<close> it returns for no session.\<close>

definition decryptSessionPayload :: "runtime \<Rightarrow> byte list \<Rightarrow> string \<Rightarrow> js_error + jsval" where
  "decryptSessionPayload rt sessionSecretKey token =
     (let text = trim token
      in if text = [] then Inr JNull
         else
           (case split_on CHR ''.'' text of
              [p0, p1, p2] \<Rightarrow>
                (case decrypt_parts rt sessionSecretKey p0 p1 p2 of
                   Inl e \<Rightarrow> Inr JNull
                 | Inr v \<Rightarrow> Inr v)
            | _ \<Rightarrow> Inr JNull))"

text \<open>
  Two readings of ``the plaintext parses as an object'': the test the code makes passes
  the objects and the arrays; a JSON object in the sense of the JSON grammar is an
  object only.
\<close>

definition is_object_or_array :: "jsval \<Rightarrow> bool" where
  "is_object_or_array v = (case v of JObj kvs \<Rightarrow> True | JArr xs \<Rightarrow> True | _ \<Rightarrow> False)"

definition is_json_object :: "jsval \<Rightarrow> bool" where
  "is_json_object v = (case v of JObj kvs \<Rightarrow> True | _ \<Rightarrow> False)"

section \<open>CredentialResolver\<close>

subsection \<open>Cookies\<close>

text \<open>
  \<^verbatim>\<open>decodeURIComponent\<close>, in two passes over the text. The first reads the escapes: a
  \<^verbatim>\<open>%\<close> that is not followed by two hexadecimal digits throws \<^verbatim>\<open>URIError\<close>. The second
  checks that the escaped bytes of 128 and above form well-formed UTF-8 sequences (each
  byte of a sequence escaped) and throws \<^verbatim>\<open>URIError\<close> otherwise. The decoded text is held
  as its UTF-8 bytes.
\<close>

definition hex_val :: "char \<Rightarrow> nat option" where
  "hex_val c =
     (case index_of c ''0123456789abcdef'' of
        Some v \<Rightarrow> Some v
      | None \<Rightarrow> (case index_of c ''ABCDEF'' of Some v \<Rightarrow> Some (v + 10) | None \<Rightarrow> None))"

datatype uri_item = Literal char | Escaped nat

fun percent_items :: "string \<Rightarrow> js_error + uri_item list" where
  "percent_items [] = Inr []"
| "percent_items (c # cs) =
     (if c \<noteq> CHR ''%'' then
        (case percent_items cs of Inl e \<Rightarrow> Inl e | Inr r \<Rightarrow> Inr (Literal c # r))
      else
        (case cs of
           h1 # h2 # rest \<Rightarrow>
             (case (hex_val h1, hex_val h2) of
                (Some a, Some b) \<Rightarrow>
                  (case percent_items rest of
                     Inl e \<Rightarrow> Inl e
                   | Inr r \<Rightarrow> Inr (Escaped (a * 16 + b) # r))
              | _ \<Rightarrow> Inl URIError)
         | _ \<Rightarrow> Inl URIError))"

definition is_cont :: "nat \<Rightarrow> bool" where
  "is_cont b = (128 \<le> b \<and> b \<le> 191)"

definition bytes_then :: "nat list \<Rightarrow> js_error + string \<Rightarrow> js_error + string" where
  "bytes_then bs r = (case r of Inl e \<Rightarrow> Inl e | Inr s \<Rightarrow> Inr (map char_of bs @ s))"

fun utf8_items :: "uri_item list \<Rightarrow> js_error + string" where
  "utf8_items [] = Inr []"
| "utf8_items (Literal c # r) =
     (case utf8_items r of Inl e \<Rightarrow> Inl e | Inr s \<Rightarrow> Inr (c # s))"
| "utf8_items (Escaped b # r) =
     (if b < 128 then bytes_then [b] (utf8_items r)
      else if 194 \<le> b \<and> b \<le> 223 then
        (case r of
           Escaped b2 # r' \<Rightarrow>
             (if is_cont b2 then bytes_then [b, b2] (utf8_items r') else Inl URIError)
         | _ \<Rightarrow> Inl URIError)
      else if 224 \<le> b \<and> b \<le> 239 then
        (case r of
           Escaped b2 # Escaped b3 # r' \<Rightarrow>
             (if is_cont b2 \<and> is_cont b3
                 \<and> (if b = 224 then 160 \<le> b2 else True)
                 \<and> (if b = 237 then b2 \<le> 159 else True)
              then bytes_then [b, b2, b3] (utf8_items r') else Inl URIError)
         | _ \<Rightarrow> Inl URIError)
      else if 240 \<le> b \<and> b \<le> 244 then
        (case r of
           Escaped b2 # Escaped b3 # Escaped b4 # r' \<Rightarrow>
             (if is_cont b2 \<and> is_cont b3 \<and> is_cont b4
                 \<and> (if b = 240 then 144 \<le> b2 else True)
                 \<and> (if b = 244 then b2 \<le> 143 else True)
              then bytes_then [b, b2, b3, b4] (utf8_items r') else Inl URIError)
         | _ \<Rightarrow> Inl URIError)
      else Inl URIError)"

definition decodeURIComponent :: "string \<Rightarrow> js_error + string" where
  "decodeURIComponent s =
     (case percent_items s of Inl e \<Rightarrow> Inl e | Inr items \<Rightarrow> utf8_items items)"

text \<open>
  The loop of \<^verbatim>\<open>parseCookies\<close> over the pairs, \<open>result\<close> being the object it fills. The
  call of \<^verbatim>\<open>decodeURIComponent\<close> is not inside a \<^verbatim>\<open>try\<close>: what it throws leaves the
  function.
\<close>

fun parse_pairs :: "string list \<Rightarrow> (string \<rightharpoonup> string) \<Rightarrow> js_error + (string \<rightharpoonup> string)" where
  "parse_pairs [] result = Inr result"
| "parse_pairs (pair # pairs) result =
     (case split_on CHR ''='' pair of
        [] \<Rightarrow> parse_pairs pairs result
      | rawKey # rest \<Rightarrow>
          (let key = trim rawKey
           in if key = [] then parse_pairs pairs result
              else
                (let rawValue = trim (join ''='' rest)
                 in case decodeURIComponent rawValue of
                      Inl e \<Rightarrow> Inl e
                    | Inr v \<Rightarrow> parse_pairs pairs (result(key \<mapsto> v)))))"

definition parseCookies :: "string option \<Rightarrow> js_error + (string \<rightharpoonup> string)" where
  "parseCookies headerValue =
     (let cookieText = trim (case headerValue of None \<Rightarrow> [] | Some h \<Rightarrow> h)
      in if cookieText = [] then Inr Map.empty
         else parse_pairs (split_on CHR '';'' cookieText) Map.empty)"

definition SESSION_COOKIE_NAME :: string where
  "SESSION_COOKIE_NAME = ''yokins_session''"

definition REMEMBER_ME_MAX_AGE_MS :: int where
  "REMEMBER_ME_MAX_AGE_MS = 30 * 24 * 60 * 60 * 1000"

definition SESSION_MAX_AGE_MS :: int where
  "SESSION_MAX_AGE_MS = 8 * 60 * 60 * 1000"

definition SESSION_TOKEN_VERSION :: int where
  "SESSION_TOKEN_VERSION = 1"

definition getSessionTokenFromRequest :: "request \<Rightarrow> js_error + string" where
  "getSessionTokenFromRequest req =
     (case parseCookies (req_headers req ''cookie'') of
        Inl e \<Rightarrow> Inl e
      | Inr cookies \<Rightarrow>
          Inr (trim (case cookies SESSION_COOKIE_NAME of None \<Rightarrow> [] | Some v \<Rightarrow> v)))"

subsection \<open>The stored accounts and API keys\<close>

text \<open>
  The tables \<^verbatim>\<open>Users\<close> and \<^verbatim>\<open>ApiKeys\<close>, as the rows in the order a scan returns them.
  \<^verbatim>\<open>Enabled\<close> and \<^verbatim>\<open>IsAdmin\<close> are integer columns; \<^verbatim>\<open>toBool\<close> is \<^verbatim>\<open>Boolean(value)\<close> on
  such a value.
\<close>

record user_row =
  UserName :: string
  PasswordSalt :: string
  PasswordHash :: "string option"
  Enabled :: int
  IsAdmin :: int

record api_key_row =
  ApiKeyID :: string
  KeyName :: string
  KeyHash :: string
  CreatedAt :: string
  ExpiresAt :: "string option"
  KeyEnabled :: int

definition toBool :: "int \<Rightarrow> bool" where
  "toBool v = (v \<noteq> 0)"

text \<open>\<^verbatim>\<open>SELECT ... FROM Users WHERE UserName = ?\<close> and
  \<^verbatim>\<open>SELECT ... FROM ApiKeys WHERE KeyHash = ? LIMIT 1\<close>.\<close>

definition get_user :: "user_row list \<Rightarrow> string \<Rightarrow> user_row option" where
  "get_user users userName = find (\<lambda>r. UserName r = userName) users"

definition get_api_key :: "api_key_row list \<Rightarrow> string \<Rightarrow> api_key_row option" where
  "get_api_key apiKeys keyHash = find (\<lambda>r. KeyHash r = keyHash) apiKeys"

text \<open>\<^verbatim>\<open>digest('hex')\<close>.\<close>

definition hex_digit :: "nat \<Rightarrow> char" where
  "hex_digit d = ''0123456789abcdef'' ! d"

definition hex :: "byte list \<Rightarrow> string" where
  "hex bs = concat (map (\<lambda>b. [hex_digit (unat b div 16), hex_digit (unat b mod 16)]) bs)"

definition hashPassword :: "runtime \<Rightarrow> string \<Rightarrow> string \<Rightarrow> string" where
  "hashPassword rt password salt = hex (sha256 rt (utf8 (salt @ '':'' @ password)))"

definition hashApiKey :: "runtime \<Rightarrow> string \<Rightarrow> string" where
  "hashApiKey rt apiKey = hex (sha256 rt (utf8 (''apikey:'' @ trim apiKey)))"

subsection \<open>The cookie session\<close>

definition buildSessionUser :: "user_row \<Rightarrow> principal" where
  "buildSessionUser row =
     \<lparr> username = UserName row, role = (if toBool (IsAdmin row) then Admin else User) \<rparr>"

text \<open>The payload \<^verbatim>\<open>createSessionToken\<close> seals; \<open>now\<close> is \<^verbatim>\<open>Date.now()\<close>.\<close>

definition session_payload :: "string \<Rightarrow> bool \<Rightarrow> int \<Rightarrow> jsval" where
  "session_payload userName rememberMe now =
     (let ttl = (if rememberMe then REMEMBER_ME_MAX_AGE_MS else SESSION_MAX_AGE_MS)
      in JObj [(''ver'', JNum (Finite (of_int SESSION_TOKEN_VERSION))),
               (''sub'', JStr userName),
               (''iat'', JNum (Finite (of_int now))),
               (''exp'', JNum (Finite (of_int (now + ttl))))])"

definition createSessionToken ::
  "runtime \<Rightarrow> byte list \<Rightarrow> byte list \<Rightarrow> string \<Rightarrow> bool \<Rightarrow> int \<Rightarrow> string" where
  "createSessionToken rt sessionSecretKey iv userName rememberMe now =
     encryptSessionPayload rt sessionSecretKey iv (session_payload userName rememberMe now)"

text \<open>\<^verbatim>\<open>resolveSessionUser\<close>; \<open>now\<close> is \<^verbatim>\<open>Date.now()\<close> at the time of the request. The
  conversions \<^verbatim>\<open>String(payload?.sub ?? '')\<close> and \<^verbatim>\<open>Number(payload?.exp)\<close> are made before
  any check and can throw.\<close>

definition resolveSessionUser ::
  "runtime \<Rightarrow> byte list \<Rightarrow> int \<Rightarrow> user_row list \<Rightarrow> request \<Rightarrow> js_error + principal option" where
  "resolveSessionUser rt sessionSecretKey now users req =
     (case getSessionTokenFromRequest req of
        Inl e \<Rightarrow> Inl e
      | Inr sessionToken \<Rightarrow>
          (if sessionToken = [] then Inr None
           else
             (case decryptSessionPayload rt sessionSecretKey sessionToken of
                Inl e \<Rightarrow> Inl e
              | Inr payload \<Rightarrow>
                  (case js_string rt (nullish_or (get_prop payload ''sub'') (JStr [])) of
                     Inl e \<Rightarrow> Inl e
                   | Inr sub \<Rightarrow>
                       (case js_number rt (get_prop payload ''exp'') of
                          Inl e \<Rightarrow> Inl e
                        | Inr expiresAt \<Rightarrow>
                            (let userName = trim sub
                             in if get_prop payload ''ver'' \<noteq> JNum (Finite (of_int SESSION_TOKEN_VERSION))
                                   \<or> userName = []
                                   \<or> (case expiresAt of Finite e \<Rightarrow> e \<le> of_int now | _ \<Rightarrow> True)
                                then Inr None
                                else
                                  (case get_user users userName of
                                     None \<Rightarrow> Inr None
                                   | Some row \<Rightarrow>
                                       (if \<not> toBool (Enabled row) then Inr None
                                        else Inr (Some (buildSessionUser row))))))))))"

subsection \<open>The bearer API key\<close>

text \<open>
  \<^verbatim>\<open>header.match(/^Bearer\s+(.+)$/i)\<close>, the first group: the word without case, one or
  more whitespace characters, then everything to the end, which must not hold a line
  terminator. When the text ends in whitespace the expression backtracks and the group
  is the last whitespace character.
\<close>

definition match_bearer :: "string \<Rightarrow> string option" where
  "match_bearer header =
     (if fold_case (take 6 header) \<noteq> ''bearer'' then None
      else
        (let spaces = takeWhile is_ws (code_points (drop 6 header));
             rest = dropWhile is_ws (code_points (drop 6 header))
         in if spaces = [] then None
            else if rest \<noteq> [] then
              (if list_ex is_line_terminator rest then None else Some (concat rest))
            else if 2 \<le> length spaces \<and> \<not> is_line_terminator (last spaces)
              then Some (last spaces)
            else None))"

text \<open>The \<^verbatim>\<open>apiKey\<close> of \<^verbatim>\<open>resolveApiKeyUser\<close>: the bearer token of the request.\<close>

definition bearer_api_key :: "request \<Rightarrow> string" where
  "bearer_api_key req =
     (let authorizationHeader = trim (header_text req ''authorization'')
      in trim (case match_bearer authorizationHeader of None \<Rightarrow> [] | Some g \<Rightarrow> g))"

text \<open>
  The expiry test of \<^verbatim>\<open>resolveApiKeyUser\<close>,
  \<^verbatim>\<open>expiresAt && expiresAt <= asIsoNow()\<close>: the comparison of the stored expiry with the
  current time is the comparison of the two strings, character by character. \<open>clock\<close> is
  \<^verbatim>\<open>new Date().toISOString()\<close>, an ASCII text, against which the order of the bytes is
  the order of the UTF-16 code units.
\<close>

definition key_expired :: "string \<Rightarrow> api_key_row \<Rightarrow> bool" where
  "key_expired clock row =
     (let expiresAt = trim (case ExpiresAt row of None \<Rightarrow> [] | Some t \<Rightarrow> t)
      in expiresAt \<noteq> [] \<and> expiresAt \<le> asIsoNow clock)"

text \<open>
  The clock as a date: \<^verbatim>\<open>toISOString()\<close> of a date of the years 0 to 9999 prints its UTC
  fields as \<^verbatim>\<open>YYYY-MM-DDTHH:mm:ss.sssZ\<close>, each with leading zeros (\<open>pad\<close>).
  \<open>iso_seconds\<close> is the text up to the seconds, the form \<^verbatim>\<open>2026-12-31T23:59:59\<close> that the
  administration page proposes for an expiry. \<open>fits_iso\<close> says that the fields have no
  more digits than their places, as the fields of a date do, and \<open>date_key\<close> lists the
  fields down to the second: of two UTC date-times the earlier one has the smaller list.
\<close>

record utc_date =
  utc_year :: nat
  utc_month :: nat
  utc_day :: nat
  utc_hours :: nat
  utc_minutes :: nat
  utc_seconds :: nat
  utc_ms :: nat

fun pad :: "nat \<Rightarrow> nat \<Rightarrow> string" where
  "pad 0 n = []"
| "pad (Suc k) n = pad k (n div 10) @ [digit_char (n mod 10)]"

definition iso_seconds :: "utc_date \<Rightarrow> string" where
  "iso_seconds d =
     pad 4 (utc_year d) @ ''-'' @ pad 2 (utc_month d) @ ''-'' @ pad 2 (utc_day d) @ ''T''
       @ pad 2 (utc_hours d) @ '':'' @ pad 2 (utc_minutes d) @ '':'' @ pad 2 (utc_seconds d)"

definition toISOString :: "utc_date \<Rightarrow> string" where
  "toISOString d = iso_seconds d @ ''.'' @ pad 3 (utc_ms d) @ ''Z''"



definition resolveApiKeyUser ::
  "runtime \<Rightarrow> string \<Rightarrow> api_key_row list \<Rightarrow> request \<Rightarrow> principal option" where
  "resolveApiKeyUser rt clock apiKeys req =
     (let apiKey = bearer_api_key req
      in if apiKey = [] then None
         else
           (case get_api_key apiKeys (hashApiKey rt apiKey) of
              None \<Rightarrow> None
            | Some row \<Rightarrow>
                (if \<not> toBool (KeyEnabled row) then None
                 else if key_expired clock row then None
                 else Some \<lparr> username = ''apikey:'' @ KeyName row, role = User \<rparr>)))"

text \<open>The middleware: \<^verbatim>\<open>req.authUser = resolveSessionUser(req) ?? resolveApiKeyUser(req)\<close>.\<close>

definition auth_middleware ::
  "runtime \<Rightarrow> byte list \<Rightarrow> int \<Rightarrow> string \<Rightarrow> user_row list \<Rightarrow> api_key_row list \<Rightarrow> request
     \<Rightarrow> js_error + principal option" where
  "auth_middleware rt sessionSecretKey now clock users apiKeys req =
     (case resolveSessionUser rt sessionSecretKey now users req of
        Inl e \<Rightarrow> Inl e
      | Inr (Some p) \<Rightarrow> Inr (Some p)
      | Inr None \<Rightarrow> Inr (resolveApiKeyUser rt clock apiKeys req))"

subsection \<open>Login\<close>

record cookie_options =
  cookie_path :: string
  httpOnly :: bool
  sameSite :: string
  secure :: bool
  maxAge :: "int option"

definition parseEnvBool :: "string option \<Rightarrow> bool" where
  "parseEnvBool v =
     (let text = toLowerCase (trim (case v of None \<Rightarrow> [] | Some s \<Rightarrow> s))
      in text = ''1'' \<or> text = ''true'' \<or> text = ''yes'' \<or> text = ''on'')"

text \<open>\<^verbatim>\<open>setSessionCookie\<close>: the cookie \<^verbatim>\<open>res.cookie\<close> is called with.\<close>

definition setSessionCookie ::
  "string option \<Rightarrow> string \<Rightarrow> bool \<Rightarrow> string \<times> string \<times> cookie_options" where
  "setSessionCookie api_https sessionToken rememberMe =
     (SESSION_COOKIE_NAME, sessionToken,
      \<lparr> cookie_path = ''/'', httpOnly = True, sameSite = ''lax'',
        secure = parseEnvBool api_https,
        maxAge = (if rememberMe then Some REMEMBER_ME_MAX_AGE_MS else None) \<rparr>)"

text \<open>The handler of \<^verbatim>\<open>POST /api/auth/login\<close>: the response and the cookie it sets, or
  what it throws. \<open>now\<close> is \<^verbatim>\<open>Date.now()\<close> and \<open>iv\<close> the value of \<^verbatim>\<open>crypto.randomBytes(12)\<close>
  inside \<^verbatim>\<open>createSessionToken\<close>.\<close>

definition login ::
  "runtime \<Rightarrow> byte list \<Rightarrow> byte list \<Rightarrow> int \<Rightarrow> string option \<Rightarrow> user_row list \<Rightarrow> request
     \<Rightarrow> js_error + response \<times> (string \<times> string \<times> cookie_options) option" where
  "login rt sessionSecretKey iv now api_https users req =
     (case js_string rt (nullish_or (get_prop (req_body req) ''username'') (JStr [])) of
        Inl e \<Rightarrow> Inl e
      | Inr u \<Rightarrow>
          (case js_string rt (nullish_or (get_prop (req_body req) ''password'') (JStr [])) of
             Inl e \<Rightarrow> Inl e
           | Inr pw \<Rightarrow>
               (let username = trim u;
                    password = trim pw;
                    rememberMe = js_truthy (get_prop (req_body req) ''rememberMe'')
                in if username = [] \<or> password = []
                   then Inr (Response 400 (error_body ''username and password are required''), None)
                   else
                     (case get_user users username of
                        None \<Rightarrow> Inr (Response 401 (error_body ''invalid credentials''), None)
                      | Some row \<Rightarrow>
                          (if \<not> toBool (Enabled row)
                           then Inr (Response 401 (error_body ''invalid credentials''), None)
                           else if Some (hashPassword rt password (PasswordSalt row)) \<noteq> PasswordHash row
                           then Inr (Response 401 (error_body ''invalid credentials''), None)
                           else
                             (let sessionToken =
                                    createSessionToken rt sessionSecretKey iv (UserName row) rememberMe now
                              in Inr (Response 200
                                        (JObj [(''username'', JStr (UserName row)),
                                               (''role'', JStr (if toBool (IsAdmin row) then ''admin'' else ''user''))]),
                                      Some (setSessionCookie api_https sessionToken rememberMe))))))))"

section \<open>AuthorizationGate\<close>

text \<open>
  What a middleware does is recorded as the checks it makes, in order, and whether it
  answers (\<open>Some\<close> response) or calls \<^verbatim>\<open>next()\<close> (\<open>None\<close>).
\<close>

datatype step = CheckedAuth | CheckedRole | RanHandler

definition requireAuth :: "principal option \<Rightarrow> step list \<times> response option" where
  "requireAuth authUser =
     (case authUser of
        None \<Rightarrow> ([CheckedAuth], Some (Response 401 (error_body ''authentication required'')))
      | Some p \<Rightarrow> ([CheckedAuth], None))"

definition requireAdmin :: "principal option \<Rightarrow> step list \<times> response option" where
  "requireAdmin authUser =
     (case authUser of
        None \<Rightarrow> ([CheckedAuth], Some (Response 401 (error_body ''authentication required'')))
      | Some p \<Rightarrow>
          (if role p \<noteq> Admin
           then ([CheckedAuth, CheckedRole], Some (Response 403 (error_body ''admin role required'')))
           else ([CheckedAuth, CheckedRole], None)))"

definition publicApiPaths :: "string list" where
  "publicApiPaths =
     [''/auth/login'', ''/auth/me'', ''/auth/logout'', ''/internal/documents-inserted'',
      ''/documents/events'']"

text \<open>The middleware mounted with \<^verbatim>\<open>app.use('/api', ...)\<close>; \<open>path\<close> is \<^verbatim>\<open>req.path\<close> there.\<close>

definition api_gate :: "string \<Rightarrow> principal option \<Rightarrow> step list \<times> response option" where
  "api_gate path authUser =
     (if path \<in> set publicApiPaths then ([], None) else requireAuth authUser)"

text \<open>
  Express 4 mounting (\<^verbatim>\<open>app.use(mount, fn)\<close>, the server's \<^verbatim>\<open>app.get('*', ...)\<close> is
  Express 4): the layer matches a path that starts with the mount, compared without
  case, followed by a slash or by the end of the path (the expression
  \<^verbatim>\<open>^\/api\/?(?=\/|$)\<close> with the flag \<^verbatim>\<open>i\<close>). The matched prefix is removed, with the
  slash after it when that slash is itself followed by a slash or by the end; what is
  left, with a leading slash, is \<^verbatim>\<open>req.path\<close> inside the middleware.
\<close>

definition mount_matches :: "string \<Rightarrow> string \<Rightarrow> bool" where
  "mount_matches mount path =
     (fold_case (take (length mount) path) = mount
      \<and> (case drop (length mount) path of [] \<Rightarrow> True | c # cs \<Rightarrow> c = CHR ''/''))"

definition mounted_path :: "string \<Rightarrow> string \<Rightarrow> string" where
  "mounted_path mount path =
     (case drop (length mount) path of
        [] \<Rightarrow> ''/''
      | c # cs \<Rightarrow>
          (if c = CHR ''/'' \<and> (case cs of [] \<Rightarrow> True | d # ds \<Rightarrow> d = CHR ''/'')
           then (if cs = [] then ''/'' else cs)
           else c # cs))"

text \<open>
  The routes, in the order the server registers them (all after the two mounted
  middlewares): the method and the path of each.
\<close>

definition routes :: "(string \<times> string) list" where
  "routes =
     [(''get'', ''/api/documents/events''),
      (''post'', ''/api/internal/documents-inserted''),
      (''get'', ''/api/document-classes''),
      (''post'', ''/api/document-classes''),
      (''put'', ''/api/document-classes/:id''),
      (''delete'', ''/api/document-classes/:id''),
      (''get'', ''/api/documents''),
      (''get'', ''/api/documents/:id''),
      (''patch'', ''/api/documents/:id/active''),
      (''patch'', ''/api/documents/:id/doc-class''),
      (''get'', ''/api/documents/:id/source''),
      (''get'', ''/documents/:id/Source''),
      (''delete'', ''/api/documents/:id''),
      (''post'', ''/api/auth/login''),
      (''get'', ''/api/auth/me''),
      (''post'', ''/api/auth/logout''),
      (''get'', ''/api/admin/users''),
      (''post'', ''/api/admin/users''),
      (''put'', ''/api/admin/users/:userName''),
      (''delete'', ''/api/admin/users/:userName''),
      (''get'', ''/api/admin/apikeys''),
      (''post'', ''/api/admin/apikeys''),
      (''put'', ''/api/admin/apikeys/:id''),
      (''delete'', ''/api/admin/apikeys/:id''),
      (''get'', ''/api/admin/queue''),
      (''delete'', ''/api/admin/queue''),
      (''delete'', ''/api/admin/queue/:entryId'')]"

text \<open>
  Express 4 makes a regular expression of a route's path, for \<^verbatim>\<open>/api/documents/:id\<close> the
  expression \<^verbatim>\<open>^\/api\/documents\/(?:([^\/]+?))\/?$\<close> with the flag \<^verbatim>\<open>i\<close>: the fixed
  segments are compared without case, a parameter is a non-empty segment, and one slash
  may follow at the end. \<open>route_params\<close> gives the parameters as they stand in the path
  when the path matches.
\<close>

fun match_segments :: "string list \<Rightarrow> string list \<Rightarrow> string list option" where
  "match_segments [] [] = Some []"
| "match_segments (p # ps) (s # ss) =
     (if take 1 p = '':'' then
        (if s = [] then None else map_option ((#) s) (match_segments ps ss))
      else if fold_case s = fold_case p then match_segments ps ss
      else None)"
| "match_segments [] (s # ss) = None"
| "match_segments (p # ps) [] = None"

definition route_params :: "string \<Rightarrow> string \<Rightarrow> string list option" where
  "route_params pattern path =
     (let segments = split_on CHR ''/'' path
      in match_segments (split_on CHR ''/'' pattern)
           (if 2 \<le> length segments \<and> last segments = [] then butlast segments else segments))"

text \<open>Express decodes every parameter of a matching route with \<^verbatim>\<open>decodeURIComponent\<close>;
  what that throws is passed to the error handler.\<close>

definition decode_params :: "string list \<Rightarrow> js_error + string list" where
  "decode_params raw = first_error (map decodeURIComponent raw)"

text \<open>
  The router's walk over the routes. A route whose expression matches the path has its
  parameters decoded, whatever the method of the request; when that throws, no route
  is run. Otherwise the route is taken if it handles the method (a route for GET also
  handles HEAD), and the walk goes on if it does not. \<open>method\<close> is the method of the
  request in lower case. Every handler of the server answers the request and none calls
  \<^verbatim>\<open>next()\<close>, so the first route taken is the only one.
\<close>

fun find_route ::
  "(string \<times> string) list \<Rightarrow> string \<Rightarrow> string
     \<Rightarrow> js_error + ((string \<times> string) \<times> string list) option" where
  "find_route [] method path = Inr None"
| "find_route ((m, pattern) # rs) method path =
     (case route_params pattern path of
        None \<Rightarrow> find_route rs method path
      | Some raw \<Rightarrow>
          (case decode_params raw of
             Inl e \<Rightarrow> Inl e
           | Inr params \<Rightarrow>
               (if m = method \<or> (method = ''head'' \<and> m = ''get'')
                then Inr (Some ((m, pattern), params))
                else find_route rs method path)))"

text \<open>
  The checks that two handlers make themselves before their body: the one of
  \<^verbatim>\<open>app.patch('/api/documents/:id/doc-class', ...)\<close> and the one of
  \<^verbatim>\<open>app.get('/documents/:id/Source', ...)\<close>, which lies outside \<^verbatim>\<open>/api\<close>.
\<close>

definition doc_class_guard :: "principal option \<Rightarrow> step list \<times> response option" where
  "doc_class_guard authUser =
     (case authUser of
        None \<Rightarrow> ([CheckedAuth], Some (Response 401 (error_body ''authentication required'')))
      | Some p \<Rightarrow>
          (if role p \<noteq> Admin
           then ([CheckedAuth, CheckedRole], Some (Response 403 (error_body ''admin role required'')))
           else ([CheckedAuth, CheckedRole], None)))"

definition source_guard :: "principal option \<Rightarrow> step list \<times> response option" where
  "source_guard authUser =
     (case authUser of
        None \<Rightarrow> ([CheckedAuth], Some (Response 401 (error_body ''authentication required'')))
      | Some p \<Rightarrow> ([CheckedAuth], None))"

definition handler_guard :: "string \<times> string \<Rightarrow> principal option \<Rightarrow> step list \<times> response option" where
  "handler_guard route authUser =
     (if route = (''patch'', ''/api/documents/:id/doc-class'') then doc_class_guard authUser
      else if route = (''get'', ''/documents/:id/Source'') then source_guard authUser
      else ([], None))"

text \<open>
  The stack a request goes through once \<^verbatim>\<open>req.authUser\<close> is set: the \<^verbatim>\<open>/api\<close>
  middleware, \<^verbatim>\<open>app.use('/api/admin', requireAdmin)\<close>, then the routes. The first layer
  that answers ends the request. \<open>body route params req\<close> is what the body of the handler
  of \<open>route\<close> answers, and \<open>body None [] req\<close> what the layers after the routes answer to
  a request that no route takes.
\<close>

definition app_pipeline ::
  "((string \<times> string) option \<Rightarrow> string list \<Rightarrow> request \<Rightarrow> response) \<Rightarrow> request
     \<Rightarrow> principal option \<Rightarrow> step list \<times> (js_error + response)" where
  "app_pipeline body req authUser =
     (case (if mount_matches ''/api'' (req_path req)
            then api_gate (mounted_path ''/api'' (req_path req)) authUser else ([], None)) of
        (t1, Some r) \<Rightarrow> (t1, Inr r)
      | (t1, None) \<Rightarrow>
          (case (if mount_matches ''/api/admin'' (req_path req)
                 then requireAdmin authUser else ([], None)) of
             (t2, Some r) \<Rightarrow> (t1 @ t2, Inr r)
           | (t2, None) \<Rightarrow>
               (case find_route routes (fold_case (req_method req)) (req_path req) of
                  Inl e \<Rightarrow> (t1 @ t2, Inl e)
                | Inr None \<Rightarrow> (t1 @ t2, Inr (body None [] req))
                | Inr (Some (route, params)) \<Rightarrow>
                    (case handler_guard route authUser of
                       (t3, Some r) \<Rightarrow> (t1 @ t2 @ t3, Inr r)
                     | (t3, None) \<Rightarrow>
                         (t1 @ t2 @ t3 @ [RanHandler], Inr (body (Some route) params req))))))"

text \<open>
  A request is addressed to an admin-scoped route when its path lies under
  \<^verbatim>\<open>/api/admin\<close>, or when it is a PATCH whose path matches the doc-class route.
\<close>

definition to_doc_class_route :: "request \<Rightarrow> bool" where
  "to_doc_class_route req =
     (fold_case (req_method req) = ''patch''
      \<and> route_params ''/api/documents/:id/doc-class'' (req_path req) \<noteq> None)"



text \<open>
  The whole path of a request: the middleware that sets \<^verbatim>\<open>req.authUser\<close>, then the
  stack. What a middleware throws, and a parameter that cannot be decoded, go to the
  error handler.
\<close>

definition handle_request ::
  "runtime \<Rightarrow> byte list \<Rightarrow> int \<Rightarrow> string \<Rightarrow> user_row list \<Rightarrow> api_key_row list
     \<Rightarrow> ((string \<times> string) option \<Rightarrow> string list \<Rightarrow> request \<Rightarrow> response) \<Rightarrow> request \<Rightarrow> response" where
  "handle_request rt sessionSecretKey now clock users apiKeys body req =
     (case auth_middleware rt sessionSecretKey now clock users apiKeys req of
        Inl err \<Rightarrow> error_handler err
      | Inr authUser \<Rightarrow> answer (snd (app_pipeline body req authUser)))"

section \<open>Concrete inputs\<close>


definition demo_payload :: jsval where
  "demo_payload = session_payload ''tanaka'' False 1767261600000"

definition remember_payload :: jsval where
  "remember_payload = session_payload ''tanaka'' True 1767261600000"

definition demo_runtime :: runtime where
  "demo_runtime = \<lparr>
     number_to_string = (\<lambda>n. ''0''),
     string_to_number = (\<lambda>s. NaN),
     json_stringify = (\<lambda>v. if v = demo_payload then ''{session}''
                           else if v = remember_payload then ''{remember}'' else ''null''),
     json_parse = (\<lambda>b. if b = utf8 ''{session}'' then Some demo_payload
                        else if b = utf8 ''{remember}'' then Some remember_payload
                        else if b = utf8 ''[]'' then Some (JArr [])
                        else if b = utf8 ''7'' then Some (JNum (Finite 7))
                        else None),
     sha256 = (\<lambda>b. b),
     gcm_encrypt = (\<lambda>k iv p. (p, replicate 16 0)),
     gcm_decrypt = (\<lambda>k iv c t. if t = replicate 16 0 then Some c else None),
     base64_lenient = (\<lambda>s. []) \<rparr>"

definition demo_key :: "byte list" where
  "demo_key = replicate 32 7"

definition demo_iv :: "byte list" where
  "demo_iv = replicate 12 0"

definition no_failures :: "nat \<Rightarrow> bool" where
  "no_failures c = False"

definition second_fails :: "nat \<Rightarrow> bool" where
  "second_fails c = (c = 2)"

definition bus0 :: bus where
  "bus0 = \<lparr> documentEventClients = [], documentEventSequence = 0, written = (\<lambda>c. []) \<rparr>"

definition bus3 :: bus where
  "bus3 = \<lparr> documentEventClients = [1, 2, 3], documentEventSequence = 7, written = (\<lambda>c. []) \<rparr>"






definition plain_user :: principal where
  "plain_user = \<lparr> username = ''tanaka'', role = User \<rparr>"

definition ok_body :: "(string \<times> string) option \<Rightarrow> string list \<Rightarrow> request \<Rightarrow> response" where
  "ok_body route params req = Response 200 (JObj [])"

text \<open>A handler body that answers with the route it belongs to and its parameters.\<close>

definition echo_body :: "(string \<times> string) option \<Rightarrow> string list \<Rightarrow> request \<Rightarrow> response" where
  "echo_body route params req =
     Response 200
       (JObj [(''route'', case route of None \<Rightarrow> JNull | Some (m, p) \<Rightarrow> JStr (m @ '' '' @ p)),
              (''params'', JArr (map JStr params))])"

text \<open>
  A request without credentials that asks to delete under the path of the event stream,
  which is on the allowlist; and a request to the doc-class route whose \<^verbatim>\<open>:id\<close> is a
  malformed escape.
\<close>

definition delete_events_request :: request where
  "delete_events_request = \<lparr> req_method = ''DELETE'', req_path = ''/api/documents/events'',
      req_headers = Map.empty, req_remoteAddress = Some ''203.0.113.9'', req_body = JObj [] \<rparr>"

definition bad_id_request :: request where
  "bad_id_request = \<lparr> req_method = ''PATCH'', req_path = ''/api/documents/%/doc-class'',
      req_headers = Map.empty, req_remoteAddress = Some ''203.0.113.9'',
      req_body = JObj [(''docClass'', JStr ''Invoice'')] \<rparr>"

definition documents_request :: request where
  "documents_request = \<lparr> req_method = ''GET'', req_path = ''/api/documents'',
      req_headers = Map.empty, req_remoteAddress = Some ''203.0.113.9'', req_body = JUndefined \<rparr>"



definition demo_host :: host where
  "demo_host = \<lparr> host_name = ''web01'', host_platform = ''linux'', host_release = ''6.1.0'',
      host_arch = ''x64'', host_cpus = Some 4,
      host_interfaces = Some [Some [Some ''00:00:00:00:00:00'', Some ''00:00:00:00:00:00''],
                              Some [Some ''AA:BB:CC:00:11:22'', Some ''aa:bb:cc:00:11:22'']] \<rparr>"

definition secret_set :: secret_env where
  "secret_set = \<lparr> API_SESSION_SECRET = Some '' correct horse '', APP_SECRET = None \<rparr>"

definition secret_fallback :: secret_env where
  "secret_fallback = \<lparr> API_SESSION_SECRET = None, APP_SECRET = Some ''correct horse'' \<rparr>"

definition secret_unset :: secret_env where
  "secret_unset = \<lparr> API_SESSION_SECRET = None, APP_SECRET = None \<rparr>"

definition key_row :: api_key_row where
  "key_row = \<lparr> ApiKeyID = ''k-1'', KeyName = ''scanner'', KeyHash = hashApiKey demo_runtime ''abc123'',
      CreatedAt = ''2026-01-01T00:00:00'', ExpiresAt = Some ''2026-06-30T00:00:00'', KeyEnabled = 1 \<rparr>"

text \<open>
  The same key with an expiry in the full form \<^verbatim>\<open>toISOString()\<close> prints, and with an
  expiry that names its offset from UTC (09:00 at +09:00 is 00:00 UTC); a request whose
  \<^verbatim>\<open>Authorization\<close> header has a no-break space after the scheme; the dates of two
  instants.
\<close>

definition key_row_utc :: api_key_row where
  "key_row_utc = key_row\<lparr>ExpiresAt := Some ''2026-06-30T00:00:00.000Z''\<rparr>"

definition key_row_offset :: api_key_row where
  "key_row_offset = key_row\<lparr>ExpiresAt := Some ''2026-06-30T09:00:00+09:00''\<rparr>"


definition end_of_june :: utc_date where
  "end_of_june = \<lparr> utc_year = 2026, utc_month = 6, utc_day = 30, utc_hours = 0,
      utc_minutes = 0, utc_seconds = 0, utc_ms = 0 \<rparr>"


definition bearer_request :: request where
  "bearer_request = \<lparr> req_method = ''GET'', req_path = ''/api/documents'',
      req_headers = [''authorization'' \<mapsto> ''bearer  abc123''],
      req_remoteAddress = Some ''203.0.113.9'', req_body = JUndefined \<rparr>"

definition admin_row :: user_row where
  "admin_row = \<lparr> UserName = ''admin'', PasswordSalt = ''0123456789abcdef'', PasswordHash = None,
      Enabled = 1, IsAdmin = 1 \<rparr>"

definition tanaka_row :: user_row where
  "tanaka_row = \<lparr> UserName = ''tanaka'', PasswordSalt = ''fedcba9876543210'',
      PasswordHash = Some (hashPassword demo_runtime ''pass1234'' ''fedcba9876543210''),
      Enabled = 1, IsAdmin = 0 \<rparr>"

text \<open>
  Tokens: one of two segments; one whose nonce has 3 bytes; one with a tag the cipher
  rejects; one whose plaintext is empty; one whose plaintext is the number \<^verbatim>\<open>7\<close>; one
  whose plaintext is the array \<^verbatim>\<open>[]\<close>; and the token sealed from \<open>demo_payload\<close>.
\<close>

definition two_part_token :: string where
  "two_part_token = ''abc.def''"

definition short_nonce_token :: string where
  "short_nonce_token = ''AAAA.W10.AAAAAAAAAAAAAAAAAAAAAA''"

definition bad_tag_token :: string where
  "bad_tag_token = ''AAAAAAAAAAAAAAAA.W10._____________________w''"

definition empty_text_token :: string where
  "empty_text_token = ''AAAAAAAAAAAAAAAA..AAAAAAAAAAAAAAAAAAAAAA''"

definition number_token :: string where
  "number_token = ''AAAAAAAAAAAAAAAA.Nw.AAAAAAAAAAAAAAAAAAAAAA''"

definition array_token :: string where
  "array_token = ''AAAAAAAAAAAAAAAA.W10.AAAAAAAAAAAAAAAAAAAAAA''"

definition session_token :: string where
  "session_token = ''AAAAAAAAAAAAAAAA.e3Nlc3Npb259.AAAAAAAAAAAAAAAAAAAAAA''"

text \<open>Requests: one carrying \<open>session_token\<close> in its session cookie, one whose cookie
  header holds a malformed escape, one without credentials.\<close>

definition cookie_request :: request where
  "cookie_request = \<lparr> req_method = ''GET'', req_path = ''/api/documents'',
      req_headers = [''cookie'' \<mapsto> ''yokins_session=AAAAAAAAAAAAAAAA.e3Nlc3Npb259.AAAAAAAAAAAAAAAAAAAAAA''],
      req_remoteAddress = Some ''203.0.113.9'', req_body = JUndefined \<rparr>"

definition bad_cookie_request :: request where
  "bad_cookie_request = \<lparr> req_method = ''GET'', req_path = ''/api/documents'',
      req_headers = [''cookie'' \<mapsto> ''theme=%''],
      req_remoteAddress = Some ''203.0.113.9'', req_body = JUndefined \<rparr>"

definition issued_at :: int where
  "issued_at = 1767261600000"

definition demo_clock :: string where
  "demo_clock = ''2026-01-01T10:00:00.000Z''"

text \<open>A login that asks to be remembered, and a request that carries the cookie it sets.\<close>

definition remember_login_request :: request where
  "remember_login_request = \<lparr> req_method = ''POST'', req_path = ''/api/auth/login'',
      req_headers = Map.empty, req_remoteAddress = Some ''203.0.113.9'',
      req_body = JObj [(''username'', JStr '' tanaka''), (''password'', JStr ''pass1234''),
                       (''rememberMe'', JStr ''yes'')] \<rparr>"

definition remember_token :: string where
  "remember_token = ''AAAAAAAAAAAAAAAA.e3JlbWVtYmVyfQ.AAAAAAAAAAAAAAAAAAAAAA''"

definition remember_cookie_request :: request where
  "remember_cookie_request = \<lparr> req_method = ''GET'', req_path = ''/api/documents'',
      req_headers = [''cookie'' \<mapsto> ''theme=dark; yokins_session=AAAAAAAAAAAAAAAA.e3JlbWVtYmVyfQ.AAAAAAAAAAAAAAAAAAAAAA''],
      req_remoteAddress = Some ''203.0.113.9'', req_body = JUndefined \<rparr>"

definition login_request :: request where
  "login_request = \<lparr> req_method = ''POST'', req_path = ''/api/auth/login'',
      req_headers = Map.empty, req_remoteAddress = Some ''203.0.113.9'',
      req_body = JObj [(''username'', JStr ''tanaka''), (''password'', JStr ''pass1234''),
                       (''rememberMe'', JBool False)] \<rparr>"

section \<open>Facts about strings\<close>

lemma dropWhile_none: "\<forall>c \<in> set xs. \<not> P c \<Longrightarrow> dropWhile P xs = xs"
  by (cases xs) auto

lemma concat_code_points: "concat (code_points s) = s"
  by (induction s) (auto split: list.splits)

lemma code_points_nonempty: "ch \<in> set (code_points s) \<Longrightarrow> ch \<noteq> []"
  by (induction s arbitrary: ch) (auto split: list.splits if_splits)

lemma code_points_bytes: "ch \<in> set (code_points s) \<Longrightarrow> set ch \<subseteq> set s"
proof -
  assume "ch \<in> set (code_points s)"
  then have "set ch \<subseteq> set (concat (code_points s))" by auto
  then show ?thesis by (simp add: concat_code_points)
qed

lemma is_ws_bytes: "is_ws ch \<Longrightarrow> ch \<noteq> [] \<and> (\<forall>c \<in> set ch. ws_byte c)"
proof -
  assume a: "is_ws ch"
  then have "ch \<noteq> []" by (auto simp: is_ws_def white_space_def)
  moreover from a have "\<forall>c \<in> set ch. ws_byte c"
    unfolding is_ws_def ws_byte_def by auto
  ultimately show ?thesis by simp
qed

text \<open>A text without any byte of a whitespace character has no whitespace to trim.\<close>

lemma no_ws_points: "\<forall>c \<in> set s. \<not> ws_byte c \<Longrightarrow> \<forall>ch \<in> set (code_points s). \<not> is_ws ch"
proof
  fix ch
  assume a: "\<forall>c \<in> set s. \<not> ws_byte c" and c: "ch \<in> set (code_points s)"
  show "\<not> is_ws ch"
  proof
    assume "is_ws ch"
    from is_ws_bytes[OF this] obtain b where "b \<in> set ch" "ws_byte b"
      by (cases ch) auto
    moreover from code_points_bytes[OF c] have "set ch \<subseteq> set s" .
    ultimately show False using a by auto
  qed
qed

lemma trim_no_ws: "\<forall>c \<in> set s. \<not> ws_byte c \<Longrightarrow> trim s = s"
proof -
  assume a: "\<forall>c \<in> set s. \<not> ws_byte c"
  from no_ws_points[OF a] have n: "\<forall>ch \<in> set (code_points s). \<not> is_ws ch" .
  then have "dropWhile is_ws (code_points s) = code_points s" by (rule dropWhile_none)
  moreover from n have "\<forall>ch \<in> set (rev (code_points s)). \<not> is_ws ch" by simp
  then have "dropWhile is_ws (rev (code_points s)) = rev (code_points s)" by (rule dropWhile_none)
  ultimately show ?thesis by (simp add: trim_def concat_code_points)
qed

text \<open>In a text of ASCII characters every byte is a character and a UTF-16 code unit.\<close>

lemma code_points_ascii:
  "\<forall>c \<in> set s. \<not> is_cont_byte c \<Longrightarrow> code_points s = map (\<lambda>c. [c]) s"
  by (induction s) (auto split: list.splits)

lemma js_length_ascii: "\<forall>c \<in> set s. (of_char c :: nat) < 128 \<Longrightarrow> js_length s = length s"
proof -
  assume a: "\<forall>c \<in> set s. (of_char c :: nat) < 128"
  then have "\<forall>c \<in> set s. \<not> is_cont_byte c" by (auto simp: is_cont_byte_def)
  then have cp: "code_points s = map (\<lambda>c. [c]) s" by (rule code_points_ascii)
  have "sum_list (map (\<lambda>c. if 240 \<le> (of_char c :: nat) then 2 else 1) s) = length s"
    using a by (induction s) auto
  then show ?thesis by (simp add: js_length_def cp comp_def)
qed

lemma split_on_no_sep: "d \<notin> set a \<Longrightarrow> split_on d a = [a]"
  by (induction a) auto

lemma split_on_append: "d \<notin> set a \<Longrightarrow> split_on d (a @ d # rest) = a # split_on d rest"
  by (induction a) auto

section \<open>ChangeEventBus: publish and delivery\<close>

lemma deliver_sequence [simp]:
  "documentEventSequence (deliver fails body cs st) = documentEventSequence st"
  by (induction cs arbitrary: st) (simp_all add: write_to_def)

lemma deliver_clients:
  "documentEventClients (deliver fails body cs st)
     = filter (\<lambda>c. \<not> (c \<in> set cs \<and> fails c)) (documentEventClients st)"
proof (induction cs arbitrary: st)
  case Nil
  then show ?case by simp
next
  case (Cons c cs)
  show ?case
  proof (cases "fails c")
    case True
    have "filter (\<lambda>x. \<not> (x \<in> set cs \<and> fails x)) (removeAll c (documentEventClients st))
            = filter (\<lambda>x. \<not> ((x = c \<or> x \<in> set cs) \<and> fails x)) (documentEventClients st)"
      using True
      by (induction "documentEventClients st") (auto simp: removeAll_filter_not_eq intro: filter_cong)
    then show ?thesis using True by (simp add: Cons.IH set_delete_def)
  next
    case False
    have "filter (\<lambda>x. \<not> (x \<in> set cs \<and> fails x)) (documentEventClients st)
            = filter (\<lambda>x. \<not> ((x = c \<or> x \<in> set cs) \<and> fails x)) (documentEventClients st)"
      using False by (auto intro: filter_cong)
    then show ?thesis using False by (simp add: Cons.IH write_to_def)
  qed
qed

lemma deliver_written:
  "distinct cs \<Longrightarrow>
   written (deliver fails body cs st) c
     = (if c \<in> set cs \<and> \<not> fails c then written st c @ [body] else written st c)"
  by (induction cs arbitrary: st) (auto simp: write_to_def)

lemma broadcast_nonempty:
  assumes "documentEventClients st \<noteq> []" and "distinct (documentEventClients st)"
  shows "documentEventSequence (broadcastDocumentsChanged rt clock fails payload st)
           = documentEventSequence st + 1"
    and "documentEventClients (broadcastDocumentsChanged rt clock fails payload st)
           = filter (\<lambda>c. \<not> fails c) (documentEventClients st)"
    and "written (broadcastDocumentsChanged rt clock fails payload st) c =
           (if c \<in> set (documentEventClients st) \<and> \<not> fails c
            then written st c @ [sse_frame rt (documentEventSequence st + 1) ''documents_changed''
                                   (documents_changed_data clock payload)]
            else written st c)"
  using assms
  by (auto simp: broadcastDocumentsChanged_def toSseData_def deliver_clients deliver_written
           intro: filter_cong)

lemma broadcast_empty:
  "documentEventClients st = [] \<Longrightarrow> broadcastDocumentsChanged rt clock fails payload st = st"
  by (simp add: broadcastDocumentsChanged_def)

lemma step_distinct:
  "distinct (documentEventClients st) \<Longrightarrow> distinct (documentEventClients (bus_step rt x st))"
  by (cases x)
     (auto simp: broadcastDocumentsChanged_def toSseData_def deliver_clients subscribe_events_def
                 write_to_def set_add_def on_close_def set_delete_def distinct_removeAll)

lemma publish_ids_gt: "i \<in> set (publish_ids ops n) \<Longrightarrow> n < i"
  by (induction ops n arbitrary: i rule: publish_ids.induct) fastforce+

lemma publish_ids_sorted: "sorted_wrt (<) (publish_ids ops n)"
  by (induction ops n rule: publish_ids.induct) (auto dest: publish_ids_gt)

lemma publish_ids_length: "length (publish_ids ops n) = length (published ops)"
  by (induction ops n rule: publish_ids.induct) auto

lemma run_delivery:
  assumes "distinct (documentEventClients st)" and "c \<in> set (documentEventClients st)"
    and "\<forall>x \<in> set ops. keeps c x"
  shows "written (bus_run rt ops st) c
           = written st c @ map2 (\<lambda>i d. sse_frame rt i ''documents_changed'' d)
                              (publish_ids ops (documentEventSequence st)) (published ops)
         \<and> c \<in> set (documentEventClients (bus_run rt ops st))"
  using assms
proof (induction ops arbitrary: st)
  case Nil
  then show ?case by simp
next
  case (Cons x xs)
  have d: "distinct (documentEventClients (bus_step rt x st))"
    using Cons.prems(1) by (rule step_distinct)
  have ne: "documentEventClients st \<noteq> []" using Cons.prems(2) by auto
  have rest: "\<forall>y \<in> set xs. keeps c y" using Cons.prems(3) by simp
  show ?case
  proof (cases x)
    case (Publish payload fails clock)
    then have nf: "\<not> fails c" using Cons.prems(3) by simp
    let ?st = "broadcastDocumentsChanged rt clock fails payload st"
    have m: "c \<in> set (documentEventClients ?st)"
      using broadcast_nonempty(2)[OF ne Cons.prems(1)] nf Cons.prems(2) by simp
    have w: "written ?st c = written st c @ [sse_frame rt (documentEventSequence st + 1)
               ''documents_changed'' (documents_changed_data clock payload)]"
      using broadcast_nonempty(3)[OF ne Cons.prems(1)] nf Cons.prems(2) by simp
    have s: "documentEventSequence ?st = Suc (documentEventSequence st)"
      using broadcast_nonempty(1)[OF ne Cons.prems(1)] by simp
    from Cons.IH[OF _ m rest] d Publish w s show ?thesis by simp
  next
    case (Subscribe c' clock)
    then have ne': "c' \<noteq> c" using Cons.prems(3) by simp
    let ?st = "subscribe_events rt clock c' st"
    have m: "c \<in> set (documentEventClients ?st)"
      using Cons.prems(2) by (simp add: subscribe_events_def toSseData_def write_to_def set_add_def)
    have w: "written ?st c = written st c"
      using ne' by (simp add: subscribe_events_def toSseData_def write_to_def)
    have s: "documentEventSequence ?st = Suc (documentEventSequence st)"
      by (simp add: subscribe_events_def toSseData_def write_to_def)
    from Cons.IH[OF _ m rest] d Subscribe w s show ?thesis by simp
  next
    case (Closed c')
    then have ne': "c' \<noteq> c" using Cons.prems(3) by simp
    let ?st = "on_close c' st"
    have m: "c \<in> set (documentEventClients ?st)"
      using Cons.prems(2) ne' by (simp add: on_close_def set_delete_def)
    have w: "written ?st c = written st c" by (simp add: on_close_def)
    have s: "documentEventSequence ?st = documentEventSequence st" by (simp add: on_close_def)
    from Cons.IH[OF _ m rest] d Closed w s show ?thesis by simp
  qed
qed

text \<open>
  C4, as stated, fails: ``every publish increments the process-lifetime sequence counter
  by exactly one''. With no subscriber registered \<^verbatim>\<open>broadcastDocumentsChanged\<close> returns
  before \<^verbatim>\<open>toSseData\<close> runs, and the counter keeps its value.
\<close>

theorem publish_without_subscriber_keeps_counter:
  "documentEventSequence (broadcastDocumentsChanged demo_runtime ''2026-03-01T10:00:00.000Z''
      no_failures [] bus0) = documentEventSequence bus0
   \<and> documentEventSequence (broadcastDocumentsChanged demo_runtime ''2026-03-01T10:00:00.000Z''
      no_failures [] bus0) \<noteq> documentEventSequence bus0 + 1"
  by (simp add: broadcastDocumentsChanged_def bus0_def)

text \<open>
  C4, amended. The registry holds each connection once. A publish made while at least one
  subscriber is registered increments the sequence counter by exactly one; it writes
  exactly one event, whose id is the new counter value, to every registered subscriber
  whose write does not fail, and nothing to anyone else; the subscribers whose write
  fails, and only they, leave the registry. A publish made while no subscriber is
  registered changes nothing. Over any run of publishes, new subscriptions and closes, a
  subscriber that stays registered receives one event per publish, in order, and their
  ids are strictly increasing.
\<close>

theorem publish_delivery:
  assumes "distinct (documentEventClients st)"
  shows "(documentEventClients st \<noteq> [] \<longrightarrow>
            documentEventSequence (broadcastDocumentsChanged rt clock fails payload st)
              = documentEventSequence st + 1
          \<and> (\<forall>c. written (broadcastDocumentsChanged rt clock fails payload st) c =
                 (if c \<in> set (documentEventClients st) \<and> \<not> fails c
                  then written st c @ [sse_frame rt (documentEventSequence st + 1)
                         ''documents_changed'' (documents_changed_data clock payload)]
                  else written st c))
          \<and> documentEventClients (broadcastDocumentsChanged rt clock fails payload st)
              = filter (\<lambda>c. \<not> fails c) (documentEventClients st))
       \<and> (documentEventClients st = [] \<longrightarrow>
            broadcastDocumentsChanged rt clock fails payload st = st)
       \<and> (\<forall>c ops. c \<in> set (documentEventClients st) \<and> (\<forall>x \<in> set ops. keeps c x) \<longrightarrow>
            written (bus_run rt ops st) c
              = written st c @ map2 (\<lambda>i d. sse_frame rt i ''documents_changed'' d)
                                 (publish_ids ops (documentEventSequence st)) (published ops)
            \<and> length (publish_ids ops (documentEventSequence st)) = length (published ops)
            \<and> sorted_wrt (<) (publish_ids ops (documentEventSequence st))
            \<and> c \<in> set (documentEventClients (bus_run rt ops st)))"
proof (intro conjI impI allI)
  assume ne: "documentEventClients st \<noteq> []"
  show "documentEventSequence (broadcastDocumentsChanged rt clock fails payload st)
          = documentEventSequence st + 1"
    using broadcast_nonempty(1)[OF ne assms] .
  show "documentEventClients (broadcastDocumentsChanged rt clock fails payload st)
          = filter (\<lambda>c. \<not> fails c) (documentEventClients st)"
    using broadcast_nonempty(2)[OF ne assms] .
  fix c
  show "written (broadcastDocumentsChanged rt clock fails payload st) c =
          (if c \<in> set (documentEventClients st) \<and> \<not> fails c
           then written st c @ [sse_frame rt (documentEventSequence st + 1)
                  ''documents_changed'' (documents_changed_data clock payload)]
           else written st c)"
    using broadcast_nonempty(3)[OF ne assms] .
next
  assume "documentEventClients st = []"
  then show "broadcastDocumentsChanged rt clock fails payload st = st"
    by (rule broadcast_empty)
next
  fix c ops
  assume h: "c \<in> set (documentEventClients st) \<and> (\<forall>x \<in> set ops. keeps c x)"
  from run_delivery[OF assms, of c ops rt] h
  show "written (bus_run rt ops st) c
          = written st c @ map2 (\<lambda>i d. sse_frame rt i ''documents_changed'' d)
                             (publish_ids ops (documentEventSequence st)) (published ops)"
    and "c \<in> set (documentEventClients (bus_run rt ops st))"
    by simp_all
  show "length (publish_ids ops (documentEventSequence st)) = length (published ops)"
    by (rule publish_ids_length)
  show "sorted_wrt (<) (publish_ids ops (documentEventSequence st))"
    by (rule publish_ids_sorted)
qed

theorem publish_delivery_witness:
  "distinct (documentEventClients bus3)
   \<and> documentEventSequence (broadcastDocumentsChanged demo_runtime ''t'' second_fails [] bus3) = 8
   \<and> written (broadcastDocumentsChanged demo_runtime ''t'' second_fails [] bus3) 1
       = [sse_frame demo_runtime 8 ''documents_changed'' (documents_changed_data ''t'' [])]
   \<and> written (broadcastDocumentsChanged demo_runtime ''t'' second_fails [] bus3) 2 = []
   \<and> written (broadcastDocumentsChanged demo_runtime ''t'' second_fails [] bus3) 3
       = [sse_frame demo_runtime 8 ''documents_changed'' (documents_changed_data ''t'' [])]
   \<and> documentEventClients (broadcastDocumentsChanged demo_runtime ''t'' second_fails [] bus3) = [1, 3]
   \<and> broadcastDocumentsChanged demo_runtime ''t'' second_fails [] bus0 = bus0
   \<and> written (bus_run demo_runtime
         [Publish [] second_fails ''t1'', Subscribe 4 ''t2'', Publish [] no_failures ''t3''] bus3) 3
       = [sse_frame demo_runtime 8 ''documents_changed'' (documents_changed_data ''t1'' []),
          sse_frame demo_runtime 10 ''documents_changed'' (documents_changed_data ''t3'' [])]"
proof -
  have d3: "distinct (documentEventClients bus3)" by (simp add: bus3_def)
  have d0: "distinct (documentEventClients bus0)" by (simp add: bus0_def)
  have k: "3 \<in> set (documentEventClients bus3)
             \<and> (\<forall>x \<in> set [Publish [] second_fails ''t1'', Subscribe 4 ''t2'',
                              Publish [] no_failures ''t3'']. keeps 3 x)"
    by (simp add: bus3_def second_fails_def no_failures_def)
  note a = publish_delivery[OF d3, of demo_runtime "''t''" second_fails "[]"]
  note b = publish_delivery[OF d0, of demo_runtime "''t''" second_fails "[]"]
  from a have "written (bus_run demo_runtime
         [Publish [] second_fails ''t1'', Subscribe 4 ''t2'', Publish [] no_failures ''t3''] bus3) 3
       = written bus3 3 @ map2 (\<lambda>i d. sse_frame demo_runtime i ''documents_changed'' d)
            (publish_ids [Publish [] second_fails ''t1'', Subscribe 4 ''t2'',
                          Publish [] no_failures ''t3''] (documentEventSequence bus3))
            (published [Publish [] second_fails ''t1'', Subscribe 4 ''t2'',
                        Publish [] no_failures ''t3''])"
    using k by blast
  then have r: "written (bus_run demo_runtime
         [Publish [] second_fails ''t1'', Subscribe 4 ''t2'', Publish [] no_failures ''t3''] bus3) 3
       = [sse_frame demo_runtime 8 ''documents_changed'' (documents_changed_data ''t1'' []),
          sse_frame demo_runtime 10 ''documents_changed'' (documents_changed_data ''t3'' [])]"
    by (simp add: bus3_def)
  from a have s: "documentEventSequence (broadcastDocumentsChanged demo_runtime ''t'' second_fails [] bus3) = 8"
    and c: "documentEventClients (broadcastDocumentsChanged demo_runtime ''t'' second_fails [] bus3) = [1, 3]"
    and w: "\<And>c. written (broadcastDocumentsChanged demo_runtime ''t'' second_fails [] bus3) c =
                 (if c \<in> set (documentEventClients bus3) \<and> \<not> second_fails c
                  then written bus3 c @ [sse_frame demo_runtime (documentEventSequence bus3 + 1)
                         ''documents_changed'' (documents_changed_data ''t'' [])]
                  else written bus3 c)"
    by (simp_all add: bus3_def second_fails_def)
  from b have e: "broadcastDocumentsChanged demo_runtime ''t'' second_fails [] bus0 = bus0"
    by (simp add: bus0_def)
  show ?thesis
    using d3 s c e r w[of 1] w[of 2] w[of 3] by (simp add: bus3_def second_fails_def)
qed

section \<open>The ingestion trigger: who may publish\<close>







section \<open>SecretDeriver: the priority chain\<close>

lemma digit_not_ws: "d < 10 \<Longrightarrow> \<not> ws_byte (digit_char d)"
proof -
  assume "d < 10"
  then have "digit_char d \<in> set ''0123456789''"
    unfolding digit_char_def by (intro nth_mem) simp
  then show ?thesis by (auto simp: ws_byte_def white_space_def)
qed

lemma decimal_no_ws: "c \<in> set (decimal n) \<Longrightarrow> \<not> ws_byte c"
proof (induction n arbitrary: c rule: decimal.induct)
  case (1 n)
  show ?case
  proof (cases "n < 10")
    case True
    with "1.prems" show ?thesis by (simp add: decimal.simps[of n] digit_not_ws)
  next
    case False
    with "1.prems" have "c \<in> set (decimal (n div 10)) \<or> c = digit_char (n mod 10)"
      by (auto simp: decimal.simps[of n])
    then show ?thesis using "1.IH"[OF False] digit_not_ws[of "n mod 10"] by auto
  qed
qed

lemma decimal_nonempty: "decimal n \<noteq> []"
  by (simp add: decimal.simps[of n])

lemma join_nonempty: "x \<in> set xs \<Longrightarrow> x \<noteq> [] \<Longrightarrow> join sep xs \<noteq> []"
  by (induction sep xs rule: join.induct) auto

lemma fingerprint_nonempty: "resolveServerFingerprint h \<noteq> []"
proof -
  let ?cpus = "case host_cpus h of None \<Rightarrow> 0 | Some n \<Rightarrow> n"
  let ?parts = "filter (\<lambda>part. part \<noteq> [])
              (map trim ([host_name h, host_platform h, host_release h, host_arch h, decimal ?cpus]
                          @ macAddresses h))"
  have t: "trim (decimal ?cpus) = decimal ?cpus"
    by (rule trim_no_ws) (simp add: decimal_no_ws)
  have m: "decimal ?cpus \<in> set ?parts"
    using t decimal_nonempty[of ?cpus] by simp
  then have "?parts \<noteq> []" by auto
  moreover have "join ''|'' ?parts \<noteq> []"
    using join_nonempty[OF m decimal_nonempty] .
  ultimately show ?thesis
    by (simp add: resolveServerFingerprint_def Let_def)
qed

lemma macs_sorted: "sorted (macAddresses h)"
  by (simp add: macAddresses_def)

lemma macs_mset: "mset (macAddresses h) = mset (filter (\<lambda>mac. mac \<noteq> [] \<and> mac \<noteq> ''00:00:00:00:00:00'') (listed_macs h))"
  by (simp add: macAddresses_def)


text \<open>
  C8, as stated, fails: the fingerprint's MAC addresses are ``sorted de-duplicated''. The
  code trims, lower-cases, drops the empty and the all-zero addresses and sorts; it never
  removes duplicates. An interface that lists the same hardware address for two of its
  network addresses contributes it twice, and the key is the hash of that text.
\<close>

theorem fingerprint_keeps_duplicate_macs:
  "macAddresses demo_host = [''aa:bb:cc:00:11:22'', ''aa:bb:cc:00:11:22'']
   \<and> resolveServerFingerprint demo_host
       = ''web01|linux|6.1.0|x64|4|aa:bb:cc:00:11:22|aa:bb:cc:00:11:22''
   \<and> spec_fingerprint demo_host = ''web01|linux|6.1.0|x64|4|aa:bb:cc:00:11:22''
   \<and> resolveServerFingerprint demo_host \<noteq> spec_fingerprint demo_host"
proof -
  have a: "macAddresses demo_host = [''aa:bb:cc:00:11:22'', ''aa:bb:cc:00:11:22'']"
    by code_simp
  have b: "resolveServerFingerprint demo_host
       = ''web01|linux|6.1.0|x64|4|aa:bb:cc:00:11:22|aa:bb:cc:00:11:22''"
    by code_simp
  have c: "spec_fingerprint demo_host = ''web01|linux|6.1.0|x64|4|aa:bb:cc:00:11:22''"
    by code_simp
  have d: "resolveServerFingerprint demo_host \<noteq> spec_fingerprint demo_host"
    unfolding b c by simp
  show ?thesis by (intro conjI a b c d)
qed

text \<open>
  C8, amended. The sealing key is derived by a priority chain. If a configured secret
  (\<^verbatim>\<open>API_SESSION_SECRET\<close>, else \<^verbatim>\<open>APP_SECRET\<close>, trimmed) is present, the key is the hash of
  that string, whatever the machine and the random bytes are, so two processes configured
  with the same secret derive the same key. Otherwise the key is the hash of the domain
  tag \<^verbatim>\<open>server-fingerprint:\<close> followed by the machine fingerprint: the non-empty trimmed
  parts among hostname, platform, OS release, architecture, CPU count and the MAC
  addresses, joined with a bar, where the MAC addresses are the non-empty, non-zero
  listed ones, sorted, each as often as it is listed. The fingerprint always holds the
  CPU count and is never empty, so the branch that hashes freshly generated random bytes
  for an empty fingerprint is not reached.
\<close>

theorem session_key_derivation:
  "(configuredSecret env \<noteq> [] \<longrightarrow>
      fst (getSessionSecretKey rt env h rnd) = sha256 rt (utf8 (configuredSecret env))
      \<and> (\<forall>env' h' rnd'. configuredSecret env' = configuredSecret env \<longrightarrow>
            fst (getSessionSecretKey rt env' h' rnd') = fst (getSessionSecretKey rt env h rnd)))
   \<and> (configuredSecret env = [] \<longrightarrow>
      fst (getSessionSecretKey rt env h rnd)
        = sha256 rt (utf8 (''server-fingerprint:'' @ resolveServerFingerprint h)))
   \<and> resolveServerFingerprint h \<noteq> []
   \<and> resolveServerFingerprint h
       = join ''|'' (filter (\<lambda>part. part \<noteq> [])
           (map trim ([host_name h, host_platform h, host_release h, host_arch h,
                       decimal (case host_cpus h of None \<Rightarrow> 0 | Some n \<Rightarrow> n)]
                      @ macAddresses h)))
   \<and> sorted (macAddresses h)
   \<and> mset (macAddresses h)
       = mset (filter (\<lambda>mac. mac \<noteq> [] \<and> mac \<noteq> ''00:00:00:00:00:00'') (listed_macs h))"
proof (intro conjI impI allI)
  assume c: "configuredSecret env \<noteq> []"
  then show k: "fst (getSessionSecretKey rt env h rnd) = sha256 rt (utf8 (configuredSecret env))"
    by (simp add: getSessionSecretKey_def)
  fix env' h' rnd'
  assume "configuredSecret env' = configuredSecret env"
  with c k show "fst (getSessionSecretKey rt env' h' rnd') = fst (getSessionSecretKey rt env h rnd)"
    by (simp add: getSessionSecretKey_def)
next
  assume "configuredSecret env = []"
  then show "fst (getSessionSecretKey rt env h rnd)
               = sha256 rt (utf8 (''server-fingerprint:'' @ resolveServerFingerprint h))"
    using fingerprint_nonempty[of h] by (simp add: getSessionSecretKey_def Let_def)
next
  show "resolveServerFingerprint h \<noteq> []" by (rule fingerprint_nonempty)
next
  show "resolveServerFingerprint h
       = join ''|'' (filter (\<lambda>part. part \<noteq> [])
           (map trim ([host_name h, host_platform h, host_release h, host_arch h,
                       decimal (case host_cpus h of None \<Rightarrow> 0 | Some n \<Rightarrow> n)]
                      @ macAddresses h)))"
    by (auto simp: resolveServerFingerprint_def Let_def)
next
  show "sorted (macAddresses h)" by (simp add: macAddresses_def)
next
  show "mset (macAddresses h)
       = mset (filter (\<lambda>mac. mac \<noteq> [] \<and> mac \<noteq> ''00:00:00:00:00:00'') (listed_macs h))"
    by (simp add: macAddresses_def)
qed

theorem session_key_derivation_witness:
  "configuredSecret secret_set \<noteq> []
   \<and> fst (getSessionSecretKey demo_runtime secret_set demo_host []) = utf8 ''correct horse''
   \<and> configuredSecret secret_fallback = configuredSecret secret_set
   \<and> fst (getSessionSecretKey demo_runtime secret_fallback (demo_host\<lparr>host_name := ''web02''\<rparr>) [1, 2, 3])
       = fst (getSessionSecretKey demo_runtime secret_set demo_host [])
   \<and> configuredSecret secret_unset = []
   \<and> fst (getSessionSecretKey demo_runtime secret_unset demo_host [])
       = utf8 (''server-fingerprint:'' @ resolveServerFingerprint demo_host)"
proof -
  have a: "configuredSecret secret_set = ''correct horse''"
    by code_simp
  have b: "configuredSecret secret_fallback = ''correct horse''"
    by code_simp
  have c: "configuredSecret secret_unset = []"
    by code_simp
  have s: "sha256 demo_runtime x = x" for x by (simp add: demo_runtime_def)
  have na: "configuredSecret secret_set \<noteq> []" using a by simp
  note t = session_key_derivation[of secret_set demo_runtime demo_host "[]", THEN conjunct1,
             rule_format, OF na]
  note u = session_key_derivation[of secret_unset demo_runtime demo_host "[]", THEN conjunct2,
             THEN conjunct1, rule_format, OF c]
  have k: "fst (getSessionSecretKey demo_runtime secret_set demo_host []) = utf8 ''correct horse''"
    using t[THEN conjunct1] a s by simp
  have eq: "configuredSecret secret_fallback = configuredSecret secret_set"
    using a b by simp
  have d: "fst (getSessionSecretKey demo_runtime secret_fallback (demo_host\<lparr>host_name := ''web02''\<rparr>) [1, 2, 3])
             = fst (getSessionSecretKey demo_runtime secret_set demo_host [])"
    using t[THEN conjunct2, rule_format, OF eq] .
  have f: "fst (getSessionSecretKey demo_runtime secret_unset demo_host [])
             = utf8 (''server-fingerprint:'' @ resolveServerFingerprint demo_host)"
    using u s by simp
  from na k eq d c f show ?thesis by blast
qed

section \<open>SessionCodec: sealing and opening\<close>

lemma b64_alphabet_length: "length b64_alphabet = 64"
  by (simp add: b64_alphabet_def)

lemma b64_alphabet_distinct: "distinct b64_alphabet"
  by (simp add: b64_alphabet_def)

lemma index_of_nth: "distinct xs \<Longrightarrow> i < length xs \<Longrightarrow> index_of (xs ! i) xs = Some i"
proof (induction xs arbitrary: i)
  case Nil
  then show ?case by simp
next
  case (Cons x xs)
  show ?case
  proof (cases i)
    case 0
    then show ?thesis by simp
  next
    case (Suc j)
    with Cons.prems have "xs ! j \<in> set xs" "x \<notin> set xs" by auto
    then have "x \<noteq> xs ! j" by auto
    with Cons Suc show ?thesis by simp
  qed
qed

lemma b64_index_char: "i < 64 \<Longrightarrow> b64_index (b64_char i) = Some i"
  unfolding b64_index_def b64_char_def
  by (rule index_of_nth) (simp_all add: b64_alphabet_distinct b64_alphabet_length)

lemma b64_char_in: "i < 64 \<Longrightarrow> b64_char i \<in> set b64_alphabet"
  unfolding b64_char_def by (rule nth_mem) (simp add: b64_alphabet_length)

lemma b64_char_not_pad: "i < 64 \<Longrightarrow> b64_char i \<noteq> CHR ''=''"
proof
  assume "i < 64" and "b64_char i = CHR ''=''"
  with b64_char_in[of i] have "CHR ''='' \<in> set b64_alphabet" by simp
  then show False by (simp add: b64_alphabet_def)
qed

lemma sextet_lt:
  fixes a b c :: nat
  assumes "a < 256" "b < 256" "c < 256"
  shows "a div 4 < 64" and "a mod 4 * 16 + b div 16 < 64" and "b mod 16 * 4 + c div 64 < 64"
    and "c mod 64 < 64" and "a mod 4 * 16 < 64" and "b mod 16 * 4 < 64"
proof -
  have a4: "a mod 4 * 16 \<le> 48"
  proof -
    have "a mod 4 \<le> 3" using mod_less_divisor[of 4 a] by linarith
    then show ?thesis by simp
  qed
  have b16: "b mod 16 * 4 \<le> 60"
  proof -
    have "b mod 16 \<le> 15" using mod_less_divisor[of 16 b] by linarith
    then show ?thesis by simp
  qed
  have bd: "b div 16 < 16" using assms(2) by simp
  have cd: "c div 64 < 4" using assms(3) by simp
  show "a div 4 < 64" using assms(1) by simp
  show "a mod 4 * 16 + b div 16 < 64" using a4 bd by linarith
  show "b mod 16 * 4 + c div 64 < 64" using b16 cd by linarith
  show "c mod 64 < 64" by simp
  show "a mod 4 * 16 < 64" using a4 by linarith
  show "b mod 16 * 4 < 64" using b16 by linarith
qed

lemma sextet_back:
  fixes a b c :: nat
  assumes "a < 256" "b < 256" "c < 256"
  shows "a div 4 * 4 + (a mod 4 * 16 + b div 16) div 16 = a"
    and "(a mod 4 * 16 + b div 16) mod 16 * 16 + (b mod 16 * 4 + c div 64) div 4 = b"
    and "(b mod 16 * 4 + c div 64) mod 4 * 64 + c mod 64 = c"
    and "a div 4 * 4 + (a mod 4 * 16) div 16 = a"
    and "(a mod 4 * 16 + b div 16) mod 16 * 16 + (b mod 16 * 4) div 4 = b"
proof -
  have bd: "b div 16 < 16" using assms(2) by simp
  have cd: "c div 64 < 4" using assms(3) by simp
  have e1: "(a mod 4 * 16 + b div 16) div 16 = a mod 4" using bd by simp
  have e2: "(a mod 4 * 16 + b div 16) mod 16 = b div 16" using bd by simp
  have e3: "(b mod 16 * 4 + c div 64) div 4 = b mod 16" using cd by simp
  have e4: "(b mod 16 * 4 + c div 64) mod 4 = c div 64" using cd by simp
  have e2': "b div 16 mod 16 = b div 16" using bd by simp
  have e4': "c div 64 mod 4 = c div 64" using cd by simp
  show "a div 4 * 4 + (a mod 4 * 16 + b div 16) div 16 = a" by (simp add: e1)
  show "(a mod 4 * 16 + b div 16) mod 16 * 16 + (b mod 16 * 4 + c div 64) div 4 = b"
    by (simp add: e2' e3)
  show "(b mod 16 * 4 + c div 64) mod 4 * 64 + c mod 64 = c" by (simp add: e4')
  show "a div 4 * 4 + (a mod 4 * 16) div 16 = a" by simp
  show "(a mod 4 * 16 + b div 16) mod 16 * 16 + (b mod 16 * 4) div 4 = b" by (simp add: e2')
qed


lemma b64_roundtrip: "b64_decode (b64_encode bs) = Some bs"
proof (induction bs rule: b64_encode.induct)
  case (1 a b c rest)
  have l: "unat a < 256" "unat b < 256" "unat c < 256"
    using unsigned_less[of a] unsigned_less[of b] unsigned_less[of c] by simp_all
  note lt = sextet_lt[OF l]
  note bk = sextet_back[OF l]
  have i: "b64_index (b64_char (unat a div 4)) = Some (unat a div 4)"
      "b64_index (b64_char (unat a mod 4 * 16 + unat b div 16)) = Some (unat a mod 4 * 16 + unat b div 16)"
      "b64_index (b64_char (unat b mod 16 * 4 + unat c div 64)) = Some (unat b mod 16 * 4 + unat c div 64)"
      "b64_index (b64_char (unat c mod 64)) = Some (unat c mod 64)"
    using lt by (simp_all add: b64_index_char)
  have p: "b64_char (unat b mod 16 * 4 + unat c div 64) \<noteq> CHR ''=''"
      "b64_char (unat c mod 64) \<noteq> CHR ''=''"
    using lt by (simp_all add: b64_char_not_pad)
  show ?case
    using i p "1.IH" bk(1-3) by simp
next
  case (2 a b)
  have l: "unat a < 256" "unat b < 256" "(0::nat) < 256"
    using unsigned_less[of a] unsigned_less[of b] by simp_all
  note lt = sextet_lt[OF l]
  note bk = sextet_back[OF l]
  have i: "b64_index (b64_char (unat a div 4)) = Some (unat a div 4)"
      "b64_index (b64_char (unat a mod 4 * 16 + unat b div 16)) = Some (unat a mod 4 * 16 + unat b div 16)"
      "b64_index (b64_char (unat b mod 16 * 4)) = Some (unat b mod 16 * 4)"
    using lt by (simp_all add: b64_index_char)
  have p: "b64_char (unat b mod 16 * 4) \<noteq> CHR ''=''"
    using lt by (simp add: b64_char_not_pad)
  show ?case
    using i p bk(1,5) by simp
next
  case (3 a)
  have l: "unat a < 256" "(0::nat) < 256" "(0::nat) < 256"
    using unsigned_less[of a] by simp_all
  note lt = sextet_lt[OF l]
  note bk = sextet_back[OF l]
  have i: "b64_index (b64_char (unat a div 4)) = Some (unat a div 4)"
      "b64_index (b64_char (unat a mod 4 * 16)) = Some (unat a mod 4 * 16)"
    using lt by (simp_all add: b64_index_char)
  show ?case
    using i bk(4) by simp
next
  case 4
  show ?case by simp
qed

lemma pad_len_small:
  fixes r k :: nat
  assumes "r < 4" and "k < 3" and "(r + k) mod 4 = 0"
  shows "(4 - r) mod 4 = k"
proof -
  from assms(1) have "r = 0 \<or> r = 1 \<or> r = 2 \<or> r = 3" by linarith
  moreover from assms(2) have "k = 0 \<or> k = 1 \<or> k = 2" by linarith
  ultimately show ?thesis using assms(3) by (elim disjE) simp_all
qed

lemma pad_len:
  fixes L k :: nat
  assumes "k < 3" and "(L + k) mod 4 = 0"
  shows "(4 - L mod 4) mod 4 = k"
proof -
  have "(L mod 4 + k) mod 4 = 0" using assms(2) by (simp add: mod_add_left_eq)
  then show ?thesis using assms(1) by (intro pad_len_small) simp_all
qed

lemma len4:
  fixes n k :: nat
  assumes "(n + k) mod 4 = 0"
  shows "(Suc (Suc (Suc (Suc n))) + k) mod 4 = 0"
proof -
  have "Suc (Suc (Suc (Suc n))) + k = (n + k) + 4" by simp
  then show ?thesis using assms by (simp only: mod_add_self2)
qed


lemma url_char_facts:
  "\<forall>c \<in> set b64_alphabet.
     url_char c \<noteq> CHR ''='' \<and> url_char c \<noteq> CHR ''.'' \<and> url_char c \<noteq> CHR '';''
     \<and> url_char c \<noteq> CHR ''%'' \<and> \<not> ws_byte (url_char c) \<and> std_char (url_char c) = c"
  by (simp add: b64_alphabet_def url_char_def std_char_def ws_byte_def white_space_def)

lemma b64_alphabet_ascii: "\<forall>c \<in> set b64_alphabet. (of_char c :: nat) < 128"
  by (simp add: b64_alphabet_def)

lemma b64_encode_shape:
  "\<exists>core k. b64_encode bs = core @ replicate k CHR ''='' \<and> set core \<subseteq> set b64_alphabet
      \<and> k < 3 \<and> (length core + k) mod 4 = 0 \<and> (bs \<noteq> [] \<longrightarrow> core \<noteq> [])"
proof (induction bs rule: b64_encode.induct)
  case (1 a b c rest)
  have l: "unat a < 256" "unat b < 256" "unat c < 256"
    using unsigned_less[of a] unsigned_less[of b] unsigned_less[of c] by simp_all
  note lt = sextet_lt[OF l]
  let ?g = "[b64_char (unat a div 4), b64_char (unat a mod 4 * 16 + unat b div 16),
             b64_char (unat b mod 16 * 4 + unat c div 64), b64_char (unat c mod 64)]"
  from "1.IH" show ?case
  proof (elim exE conjE)
    fix core k
    assume h: "b64_encode rest = core @ replicate k CHR ''=''" "set core \<subseteq> set b64_alphabet"
      "k < 3" "(length core + k) mod 4 = 0"
    have e: "b64_encode (a # b # c # rest) = (?g @ core) @ replicate k CHR ''=''"
      using h(1) by simp
    have s: "set (?g @ core) \<subseteq> set b64_alphabet"
      using h(2) lt by (simp add: b64_char_in)
    have m: "(length (?g @ core) + k) mod 4 = 0"
      using len4[OF h(4)] by simp
    have n: "?g @ core \<noteq> []" by simp
    show ?thesis
      by (rule exI[of _ "?g @ core"], rule exI[of _ k]) (use e s m n h(3) in blast)
  qed
next
  case (2 a b)
  have l: "unat a < 256" "unat b < 256" "(0::nat) < 256"
    using unsigned_less[of a] unsigned_less[of b] by simp_all
  note lt = sextet_lt[OF l]
  let ?g = "[b64_char (unat a div 4), b64_char (unat a mod 4 * 16 + unat b div 16),
             b64_char (unat b mod 16 * 4)]"
  have "b64_encode [a, b] = ?g @ replicate 1 CHR ''=''" by simp
  moreover have "set ?g \<subseteq> set b64_alphabet" using lt by (simp add: b64_char_in)
  moreover have "(length ?g + 1) mod 4 = 0" by simp
  ultimately show ?case by (intro exI[of _ ?g] exI[of _ 1]) simp
next
  case (3 a)
  have l: "unat a < 256" "(0::nat) < 256" "(0::nat) < 256"
    using unsigned_less[of a] by simp_all
  note lt = sextet_lt[OF l]
  let ?g = "[b64_char (unat a div 4), b64_char (unat a mod 4 * 16)]"
  have "b64_encode [a] = ?g @ replicate 2 CHR ''=''" by (simp add: numeral_2_eq_2)
  moreover have "set ?g \<subseteq> set b64_alphabet" using lt by (simp add: b64_char_in)
  moreover have "(length ?g + 2) mod 4 = 0" by simp
  ultimately show ?case by (intro exI[of _ ?g] exI[of _ 2]) simp
next
  case 4
  show ?case by (intro exI[of _ "[]"] exI[of _ 0]) simp
qed

lemma b64_encode_shapeE:
  obtains core k where "b64_encode bs = core @ replicate k CHR ''=''"
    and "set core \<subseteq> set b64_alphabet" and "k < 3" and "(length core + k) mod 4 = 0"
    and "bs \<noteq> [] \<longrightarrow> core \<noteq> []"
proof -
  from b64_encode_shape[of bs] show thesis
  proof (elim exE conjE)
    fix core k
    assume "b64_encode bs = core @ replicate k CHR ''=''" "set core \<subseteq> set b64_alphabet"
      "k < 3" "(length core + k) mod 4 = 0" "bs \<noteq> [] \<longrightarrow> core \<noteq> []"
    then show thesis by (rule that)
  qed
qed

lemma toBase64Url_core:
  assumes "b64_encode bs = core @ replicate k CHR ''=''" and "set core \<subseteq> set b64_alphabet"
  shows "toBase64Url bs = map url_char core"
proof -
  have np: "\<forall>c \<in> set (map url_char core). c \<noteq> CHR ''=''"
    using assms(2) url_char_facts by auto
  have "rev (map url_char (b64_encode bs)) = replicate k CHR ''='' @ rev (map url_char core)"
    by (simp add: assms(1) url_char_def)
  moreover have "dropWhile (\<lambda>c. c = CHR ''='') (replicate k CHR ''='' @ rev (map url_char core))
                   = dropWhile (\<lambda>c. c = CHR ''='') (rev (map url_char core))"
    by (induction k) simp_all
  moreover have "\<forall>c \<in> set (rev (map url_char core)). \<not> c = CHR ''=''"
    using np by simp
  then have "dropWhile (\<lambda>c. c = CHR ''='') (rev (map url_char core)) = rev (map url_char core)"
    by (rule dropWhile_none)
  ultimately show ?thesis by (simp add: toBase64Url_def)
qed

lemma toBase64Url_chars:
  "c \<in> set (toBase64Url bs) \<Longrightarrow>
     c \<noteq> CHR ''.'' \<and> c \<noteq> CHR '';'' \<and> c \<noteq> CHR ''='' \<and> c \<noteq> CHR ''%'' \<and> \<not> ws_byte c"
proof -
  assume c: "c \<in> set (toBase64Url bs)"
  obtain core k where h: "b64_encode bs = core @ replicate k CHR ''=''"
    "set core \<subseteq> set b64_alphabet" by (rule b64_encode_shapeE)
  from c toBase64Url_core[OF h] obtain d where "d \<in> set core" "c = url_char d" by auto
  with h(2) url_char_facts show ?thesis by auto
qed

lemma toBase64Url_nonempty: "bs \<noteq> [] \<Longrightarrow> toBase64Url bs \<noteq> []"
proof -
  assume n: "bs \<noteq> []"
  obtain core k where h: "b64_encode bs = core @ replicate k CHR ''=''"
    "set core \<subseteq> set b64_alphabet" "core \<noteq> []" using n b64_encode_shapeE[of bs] by metis
  show ?thesis using toBase64Url_core[OF h(1,2)] h(3) by simp
qed

lemma base64url_roundtrip: "fromBase64Url rt (toBase64Url bs) = bs"
proof -
  obtain core k where h: "b64_encode bs = core @ replicate k CHR ''=''"
    "set core \<subseteq> set b64_alphabet" "k < 3" "(length core + k) mod 4 = 0"
    "bs \<noteq> [] \<longrightarrow> core \<noteq> []" by (rule b64_encode_shapeE)
  note u = toBase64Url_core[OF h(1,2)]
  have t: "trim (map url_char core) = map url_char core"
    by (rule trim_no_ws) (use h(2) url_char_facts in auto)
  show ?thesis
  proof (cases "core = []")
    case True
    then have "bs = []" using h(5) by auto
    then show ?thesis by (simp add: fromBase64Url_def toBase64Url_def trim_def)
  next
    case False
    have n: "map (std_char \<circ> url_char) core = core"
      by (rule map_idI) (use h(2) url_char_facts in auto)
    have "js_length core = length core"
      by (rule js_length_ascii) (use h(2) b64_alphabet_ascii in auto)
    moreover have "(4 - length core mod 4) mod 4 = k" using h(3,4) by (rule pad_len)
    ultimately have p: "(4 - js_length core mod 4) mod 4 = k" by simp
    have "buffer_from_base64 rt (core @ replicate k CHR ''='') = bs"
      using b64_roundtrip[of bs] h(1) by (simp add: buffer_from_base64_def)
    then show ?thesis
      using False by (simp add: fromBase64Url_def u t n p Let_def)
  qed
qed

lemma token_split:
  "split_on CHR ''.'' (toBase64Url x @ CHR ''.'' # toBase64Url y @ CHR ''.'' # toBase64Url z)
     = [toBase64Url x, toBase64Url y, toBase64Url z]"
proof -
  have d: "CHR ''.'' \<notin> set (toBase64Url x)" "CHR ''.'' \<notin> set (toBase64Url y)"
    "CHR ''.'' \<notin> set (toBase64Url z)"
    using toBase64Url_chars by blast+
  show ?thesis
    by (simp only: split_on_append[OF d(1)] split_on_append[OF d(2)] split_on_no_sep[OF d(3)])
qed

lemma token_trim:
  "trim (toBase64Url x @ CHR ''.'' # toBase64Url y @ CHR ''.'' # toBase64Url z)
     = toBase64Url x @ CHR ''.'' # toBase64Url y @ CHR ''.'' # toBase64Url z"
proof (rule trim_no_ws)
  have "\<not> ws_byte CHR ''.''" by code_simp
  then show "\<forall>c\<in>set (toBase64Url x @ CHR ''.'' # toBase64Url y @ CHR ''.'' # toBase64Url z). \<not> ws_byte c"
    using toBase64Url_chars[of _ x] toBase64Url_chars[of _ y] toBase64Url_chars[of _ z] by auto
qed

lemma seal_open:
  assumes "length iv = 12"
    and "gcm_encrypt rt key iv (utf8 (json_stringify rt payload)) = (encrypted, authTag)"
    and "length authTag = 16"
    and "gcm_decrypt rt key iv encrypted authTag = Some (utf8 (json_stringify rt payload))"
    and "json_parse rt (utf8 (json_stringify rt payload)) = Some payload"
    and "js_truthy payload \<and> js_typeof payload = ''object''"
  shows "decryptSessionPayload rt key (encryptSessionPayload rt key iv payload) = Inr payload"
proof -
  let ?t = "toBase64Url iv @ CHR ''.'' # toBase64Url encrypted @ CHR ''.'' # toBase64Url authTag"
  have e: "encryptSessionPayload rt key iv payload = ?t"
    by (simp add: encryptSessionPayload_def assms(2))
  have p: "decrypt_parts rt key (toBase64Url iv) (toBase64Url encrypted) (toBase64Url authTag)
             = Inr payload"
    using assms by (simp add: decrypt_parts_def base64url_roundtrip)
  have "decryptSessionPayload rt key ?t = Inr payload"
    unfolding decryptSessionPayload_def token_trim Let_def token_split
    using p by simp
  then show ?thesis by (simp only: e)
qed


text \<open>
  C5. For every payload that is an object, opening the token that sealing produced under
  the same key returns the payload. The runtime is assumed to do what its documentation
  says at this payload: the nonce has 12 bytes, the cipher's tag has 16, decrypting the
  cipher's output under the same key, nonce and tag gives back the plaintext, and
  parsing the text that \<^verbatim>\<open>JSON.stringify\<close> made of the payload gives back the payload.
\<close>

theorem seal_then_open:
  assumes "length iv = 12"
    and "gcm_encrypt rt key iv (utf8 (json_stringify rt payload)) = (encrypted, authTag)"
    and "length authTag = 16"
    and "gcm_decrypt rt key iv encrypted authTag = Some (utf8 (json_stringify rt payload))"
    and "json_parse rt (utf8 (json_stringify rt payload)) = Some payload"
    and "payload = JObj kvs"
  shows "decryptSessionPayload rt key (encryptSessionPayload rt key iv payload) = Inr payload"
proof -
  have "js_truthy payload \<and> js_typeof payload = ''object''"
    using assms(6) by (simp add: js_truthy_def js_typeof_def)
  with assms(1-5) show ?thesis by (rule seal_open)
qed

theorem seal_then_open_witness:
  "length demo_iv = 12
   \<and> gcm_encrypt demo_runtime demo_key demo_iv (utf8 (json_stringify demo_runtime demo_payload))
       = (utf8 ''{session}'', replicate 16 0)
   \<and> gcm_decrypt demo_runtime demo_key demo_iv (utf8 ''{session}'') (replicate 16 0)
       = Some (utf8 (json_stringify demo_runtime demo_payload))
   \<and> json_parse demo_runtime (utf8 (json_stringify demo_runtime demo_payload)) = Some demo_payload
   \<and> decryptSessionPayload demo_runtime demo_key
         (encryptSessionPayload demo_runtime demo_key demo_iv demo_payload) = Inr demo_payload
   \<and> encryptSessionPayload demo_runtime demo_key demo_iv demo_payload
       = ''AAAAAAAAAAAAAAAA.e3Nlc3Npb259.AAAAAAAAAAAAAAAAAAAAAA''"
proof -
  have a: "length demo_iv = 12" by (simp add: demo_iv_def)
  have b: "gcm_encrypt demo_runtime demo_key demo_iv (utf8 (json_stringify demo_runtime demo_payload))
             = (utf8 ''{session}'', replicate 16 0)"
    by (simp add: demo_runtime_def)
  have c: "length (replicate 16 (0::byte)) = 16" by simp
  have d: "gcm_decrypt demo_runtime demo_key demo_iv (utf8 ''{session}'') (replicate 16 0)
             = Some (utf8 (json_stringify demo_runtime demo_payload))"
    by (simp add: demo_runtime_def)
  have e: "json_parse demo_runtime (utf8 (json_stringify demo_runtime demo_payload))
             = Some demo_payload"
    by (simp add: demo_runtime_def)
  have f: "demo_payload = JObj [(''ver'', JNum (Finite 1)), (''sub'', JStr ''tanaka''),
             (''iat'', JNum (Finite 1767261600000)), (''exp'', JNum (Finite 1767290400000))]"
    by (simp add: demo_payload_def session_payload_def SESSION_TOKEN_VERSION_def
          SESSION_MAX_AGE_MS_def)
  have g: "encryptSessionPayload demo_runtime demo_key demo_iv demo_payload
             = ''AAAAAAAAAAAAAAAA.e3Nlc3Npb259.AAAAAAAAAAAAAAAAAAAAAA''"
    by code_simp
  from a b d e seal_then_open[OF a b c d e f] g show ?thesis by blast
qed

lemma object_like_iff: "(js_truthy v \<and> js_typeof v = ''object'') = is_object_or_array v"
  by (cases v) (simp_all add: js_truthy_def js_typeof_def is_object_or_array_def)

lemma open_total: "\<exists>v. decryptSessionPayload rt key token = Inr v"
  by (auto simp: decryptSessionPayload_def Let_def split: list.splits sum.splits)

lemma open_three_parts:
  "split_on CHR ''.'' (trim token) = [p0, p1, p2] \<Longrightarrow>
   decryptSessionPayload rt key token
     = (case decrypt_parts rt key p0 p1 p2 of Inl e \<Rightarrow> Inr JNull | Inr v \<Rightarrow> Inr v)"
  by (auto simp: decryptSessionPayload_def Let_def)

text \<open>
  C6, as stated, fails in one case: ``returns null whenever the decrypted plaintext does
  not parse as a JSON object''. The test is \<^verbatim>\<open>payload && typeof payload === 'object'\<close>,
  which an array passes: a token whose plaintext is \<^verbatim>\<open>[]\<close> opens to that array, not to
  \<^verbatim>\<open>null\<close>.
\<close>

theorem open_returns_array_plaintext:
  "array_token = ''AAAAAAAAAAAAAAAA.W10.AAAAAAAAAAAAAAAAAAAAAA''
   \<and> decryptSessionPayload demo_runtime demo_key array_token = Inr (JArr [])
   \<and> fromBase64Url demo_runtime ''W10'' = utf8 ''[]''
   \<and> json_parse demo_runtime (utf8 ''[]'') = Some (JArr [])
   \<and> \<not> is_json_object (JArr [])
   \<and> JArr [] \<noteq> JNull"
  by code_simp

text \<open>
  C6, amended. For every input string the session-open operation returns and never
  throws. It returns ``no session'' (null) whenever the trimmed token does not split into
  exactly three segments at the dots, the decoded nonce is not 12 bytes, the decoded tag
  is not 16 bytes, authenticated decryption fails, the decrypted plaintext does not
  parse, or it parses to a value that is neither an object nor an array. In the one
  remaining case it returns the parsed object or array.
\<close>

theorem open_fails_closed:
  "(\<exists>v. decryptSessionPayload rt key token = Inr v)
   \<and> (length (split_on CHR ''.'' (trim token)) \<noteq> 3 \<longrightarrow>
        decryptSessionPayload rt key token = Inr JNull)
   \<and> (\<forall>p0 p1 p2. split_on CHR ''.'' (trim token) = [p0, p1, p2]
        \<and> (length (fromBase64Url rt p0) \<noteq> 12 \<or> length (fromBase64Url rt p2) \<noteq> 16) \<longrightarrow>
        decryptSessionPayload rt key token = Inr JNull)
   \<and> (\<forall>p0 p1 p2. split_on CHR ''.'' (trim token) = [p0, p1, p2]
        \<and> gcm_decrypt rt key (fromBase64Url rt p0) (fromBase64Url rt p1) (fromBase64Url rt p2)
            = None \<longrightarrow>
        decryptSessionPayload rt key token = Inr JNull)
   \<and> (\<forall>p0 p1 p2 plain. split_on CHR ''.'' (trim token) = [p0, p1, p2]
        \<and> gcm_decrypt rt key (fromBase64Url rt p0) (fromBase64Url rt p1) (fromBase64Url rt p2)
            = Some plain
        \<and> json_parse rt plain = None \<longrightarrow>
        decryptSessionPayload rt key token = Inr JNull)
   \<and> (\<forall>p0 p1 p2 plain v. split_on CHR ''.'' (trim token) = [p0, p1, p2]
        \<and> gcm_decrypt rt key (fromBase64Url rt p0) (fromBase64Url rt p1) (fromBase64Url rt p2)
            = Some plain
        \<and> json_parse rt plain = Some v \<and> \<not> is_object_or_array v \<longrightarrow>
        decryptSessionPayload rt key token = Inr JNull)
   \<and> (\<forall>p0 p1 p2 plain v. split_on CHR ''.'' (trim token) = [p0, p1, p2]
        \<and> length (fromBase64Url rt p0) = 12 \<and> length (fromBase64Url rt p2) = 16
        \<and> gcm_decrypt rt key (fromBase64Url rt p0) (fromBase64Url rt p1) (fromBase64Url rt p2)
            = Some plain
        \<and> json_parse rt plain = Some v \<and> is_object_or_array v \<longrightarrow>
        decryptSessionPayload rt key token = Inr v)"
proof (intro conjI allI impI)
  show "\<exists>v. decryptSessionPayload rt key token = Inr v" by (rule open_total)
next
  assume "length (split_on CHR ''.'' (trim token)) \<noteq> 3"
  then show "decryptSessionPayload rt key token = Inr JNull"
    by (auto simp: decryptSessionPayload_def Let_def split: list.splits)
next
  fix p0 p1 p2
  assume "split_on CHR ''.'' (trim token) = [p0, p1, p2]
        \<and> (length (fromBase64Url rt p0) \<noteq> 12 \<or> length (fromBase64Url rt p2) \<noteq> 16)"
  then show "decryptSessionPayload rt key token = Inr JNull"
    by (auto simp: open_three_parts decrypt_parts_def Let_def)
next
  fix p0 p1 p2
  assume "split_on CHR ''.'' (trim token) = [p0, p1, p2]
        \<and> gcm_decrypt rt key (fromBase64Url rt p0) (fromBase64Url rt p1) (fromBase64Url rt p2)
            = None"
  then show "decryptSessionPayload rt key token = Inr JNull"
    by (auto simp: open_three_parts decrypt_parts_def Let_def)
next
  fix p0 p1 p2 plain
  assume "split_on CHR ''.'' (trim token) = [p0, p1, p2]
        \<and> gcm_decrypt rt key (fromBase64Url rt p0) (fromBase64Url rt p1) (fromBase64Url rt p2)
            = Some plain
        \<and> json_parse rt plain = None"
  then show "decryptSessionPayload rt key token = Inr JNull"
    by (auto simp: open_three_parts decrypt_parts_def Let_def)
next
  fix p0 p1 p2 plain v
  assume "split_on CHR ''.'' (trim token) = [p0, p1, p2]
        \<and> gcm_decrypt rt key (fromBase64Url rt p0) (fromBase64Url rt p1) (fromBase64Url rt p2)
            = Some plain
        \<and> json_parse rt plain = Some v \<and> \<not> is_object_or_array v"
  then show "decryptSessionPayload rt key token = Inr JNull"
    by (auto simp: open_three_parts decrypt_parts_def Let_def object_like_iff)
next
  fix p0 p1 p2 plain v
  assume "split_on CHR ''.'' (trim token) = [p0, p1, p2]
        \<and> length (fromBase64Url rt p0) = 12 \<and> length (fromBase64Url rt p2) = 16
        \<and> gcm_decrypt rt key (fromBase64Url rt p0) (fromBase64Url rt p1) (fromBase64Url rt p2)
            = Some plain
        \<and> json_parse rt plain = Some v \<and> is_object_or_array v"
  then show "decryptSessionPayload rt key token = Inr v"
    by (auto simp: open_three_parts decrypt_parts_def Let_def object_like_iff)
qed

theorem open_fails_closed_witness:
  "length (split_on CHR ''.'' (trim two_part_token)) \<noteq> 3
   \<and> decryptSessionPayload demo_runtime demo_key two_part_token = Inr JNull
   \<and> split_on CHR ''.'' (trim short_nonce_token) = [''AAAA'', ''W10'', ''AAAAAAAAAAAAAAAAAAAAAA'']
   \<and> length (fromBase64Url demo_runtime ''AAAA'') \<noteq> 12
   \<and> decryptSessionPayload demo_runtime demo_key short_nonce_token = Inr JNull
   \<and> split_on CHR ''.'' (trim bad_tag_token)
       = [''AAAAAAAAAAAAAAAA'', ''W10'', ''_____________________w'']
   \<and> gcm_decrypt demo_runtime demo_key (fromBase64Url demo_runtime ''AAAAAAAAAAAAAAAA'')
        (fromBase64Url demo_runtime ''W10'') (fromBase64Url demo_runtime ''_____________________w'')
       = None
   \<and> decryptSessionPayload demo_runtime demo_key bad_tag_token = Inr JNull
   \<and> split_on CHR ''.'' (trim empty_text_token)
       = [''AAAAAAAAAAAAAAAA'', [], ''AAAAAAAAAAAAAAAAAAAAAA'']
   \<and> gcm_decrypt demo_runtime demo_key (fromBase64Url demo_runtime ''AAAAAAAAAAAAAAAA'')
        (fromBase64Url demo_runtime []) (fromBase64Url demo_runtime ''AAAAAAAAAAAAAAAAAAAAAA'')
       = Some []
   \<and> json_parse demo_runtime [] = None
   \<and> decryptSessionPayload demo_runtime demo_key empty_text_token = Inr JNull
   \<and> split_on CHR ''.'' (trim number_token)
       = [''AAAAAAAAAAAAAAAA'', ''Nw'', ''AAAAAAAAAAAAAAAAAAAAAA'']
   \<and> gcm_decrypt demo_runtime demo_key (fromBase64Url demo_runtime ''AAAAAAAAAAAAAAAA'')
        (fromBase64Url demo_runtime ''Nw'') (fromBase64Url demo_runtime ''AAAAAAAAAAAAAAAAAAAAAA'')
       = Some (utf8 ''7'')
   \<and> json_parse demo_runtime (utf8 ''7'') = Some (JNum (Finite 7))
   \<and> \<not> is_object_or_array (JNum (Finite 7))
   \<and> decryptSessionPayload demo_runtime demo_key number_token = Inr JNull
   \<and> split_on CHR ''.'' (trim session_token)
       = [''AAAAAAAAAAAAAAAA'', ''e3Nlc3Npb259'', ''AAAAAAAAAAAAAAAAAAAAAA'']
   \<and> gcm_decrypt demo_runtime demo_key (fromBase64Url demo_runtime ''AAAAAAAAAAAAAAAA'')
        (fromBase64Url demo_runtime ''e3Nlc3Npb259'')
        (fromBase64Url demo_runtime ''AAAAAAAAAAAAAAAAAAAAAA'')
       = Some (utf8 ''{session}'')
   \<and> json_parse demo_runtime (utf8 ''{session}'') = Some demo_payload
   \<and> is_object_or_array demo_payload
   \<and> decryptSessionPayload demo_runtime demo_key session_token = Inr demo_payload"
proof -
  have a1: "length (split_on CHR ''.'' (trim two_part_token)) \<noteq> 3" by code_simp
  have b1: "split_on CHR ''.'' (trim short_nonce_token)
              = [''AAAA'', ''W10'', ''AAAAAAAAAAAAAAAAAAAAAA'']" by code_simp
  have b2: "length (fromBase64Url demo_runtime ''AAAA'') \<noteq> 12" by code_simp
  have c1: "split_on CHR ''.'' (trim bad_tag_token)
              = [''AAAAAAAAAAAAAAAA'', ''W10'', ''_____________________w'']" by code_simp
  have c2: "gcm_decrypt demo_runtime demo_key (fromBase64Url demo_runtime ''AAAAAAAAAAAAAAAA'')
        (fromBase64Url demo_runtime ''W10'') (fromBase64Url demo_runtime ''_____________________w'')
       = None" by code_simp
  have d1: "split_on CHR ''.'' (trim empty_text_token)
              = [''AAAAAAAAAAAAAAAA'', [], ''AAAAAAAAAAAAAAAAAAAAAA'']" by code_simp
  have d2: "gcm_decrypt demo_runtime demo_key (fromBase64Url demo_runtime ''AAAAAAAAAAAAAAAA'')
        (fromBase64Url demo_runtime []) (fromBase64Url demo_runtime ''AAAAAAAAAAAAAAAAAAAAAA'')
       = Some []" by code_simp
  have d3: "json_parse demo_runtime [] = None" by code_simp
  have e1: "split_on CHR ''.'' (trim number_token)
              = [''AAAAAAAAAAAAAAAA'', ''Nw'', ''AAAAAAAAAAAAAAAAAAAAAA'']" by code_simp
  have e2: "gcm_decrypt demo_runtime demo_key (fromBase64Url demo_runtime ''AAAAAAAAAAAAAAAA'')
        (fromBase64Url demo_runtime ''Nw'') (fromBase64Url demo_runtime ''AAAAAAAAAAAAAAAAAAAAAA'')
       = Some (utf8 ''7'')" by code_simp
  have e3: "json_parse demo_runtime (utf8 ''7'') = Some (JNum (Finite 7))" by code_simp
  have e4: "\<not> is_object_or_array (JNum (Finite 7))" by (simp add: is_object_or_array_def)
  have f1: "split_on CHR ''.'' (trim session_token)
              = [''AAAAAAAAAAAAAAAA'', ''e3Nlc3Npb259'', ''AAAAAAAAAAAAAAAAAAAAAA'']" by code_simp
  have f2: "gcm_decrypt demo_runtime demo_key (fromBase64Url demo_runtime ''AAAAAAAAAAAAAAAA'')
        (fromBase64Url demo_runtime ''e3Nlc3Npb259'')
        (fromBase64Url demo_runtime ''AAAAAAAAAAAAAAAAAAAAAA'')
       = Some (utf8 ''{session}'')" by code_simp
  have f3: "json_parse demo_runtime (utf8 ''{session}'') = Some demo_payload" by code_simp
  have f4: "is_object_or_array demo_payload"
    by (simp add: is_object_or_array_def demo_payload_def session_payload_def)
  have f5: "length (fromBase64Url demo_runtime ''AAAAAAAAAAAAAAAA'') = 12" by code_simp
  have f6: "length (fromBase64Url demo_runtime ''AAAAAAAAAAAAAAAAAAAAAA'') = 16" by code_simp
  have ra: "decryptSessionPayload demo_runtime demo_key two_part_token = Inr JNull"
    by (rule open_fails_closed[of demo_runtime demo_key two_part_token,
          THEN conjunct2, THEN conjunct1, rule_format]) (rule a1)
  have rb: "decryptSessionPayload demo_runtime demo_key short_nonce_token = Inr JNull"
    by (rule open_fails_closed[of demo_runtime demo_key short_nonce_token,
          THEN conjunct2, THEN conjunct2, THEN conjunct1, rule_format,
          of "''AAAA''" "''W10''" "''AAAAAAAAAAAAAAAAAAAAAA''"])
       (intro conjI b1 disjI1 b2)
  have rc: "decryptSessionPayload demo_runtime demo_key bad_tag_token = Inr JNull"
    by (rule open_fails_closed[of demo_runtime demo_key bad_tag_token,
          THEN conjunct2, THEN conjunct2, THEN conjunct2, THEN conjunct1, rule_format,
          of "''AAAAAAAAAAAAAAAA''" "''W10''" "''_____________________w''"])
       (intro conjI c1 c2)
  have rd: "decryptSessionPayload demo_runtime demo_key empty_text_token = Inr JNull"
    by (rule open_fails_closed[of demo_runtime demo_key empty_text_token,
          THEN conjunct2, THEN conjunct2, THEN conjunct2, THEN conjunct2, THEN conjunct1,
          rule_format, of "''AAAAAAAAAAAAAAAA''" "[]" "''AAAAAAAAAAAAAAAAAAAAAA''" "[]"])
       (intro conjI d1 d2 d3)
  have re: "decryptSessionPayload demo_runtime demo_key number_token = Inr JNull"
    by (rule open_fails_closed[of demo_runtime demo_key number_token,
          THEN conjunct2, THEN conjunct2, THEN conjunct2, THEN conjunct2, THEN conjunct2,
          THEN conjunct1, rule_format,
          of "''AAAAAAAAAAAAAAAA''" "''Nw''" "''AAAAAAAAAAAAAAAAAAAAAA''" "utf8 ''7''"
             "JNum (Finite 7)"])
       (intro conjI e1 e2 e3 e4)
  have rf: "decryptSessionPayload demo_runtime demo_key session_token = Inr demo_payload"
    by (rule open_fails_closed[of demo_runtime demo_key session_token,
          THEN conjunct2, THEN conjunct2, THEN conjunct2, THEN conjunct2, THEN conjunct2,
          THEN conjunct2, rule_format,
          of "''AAAAAAAAAAAAAAAA''" "''e3Nlc3Npb259''" "''AAAAAAAAAAAAAAAAAAAAAA''"
             "utf8 ''{session}''" demo_payload])
       (intro conjI f1 f5 f6 f2 f3 f4)
  show ?thesis
    by (intro conjI a1 ra b1 b2 rb c1 c2 rc d1 d2 d3 rd e1 e2 e3 e4 re f1 f2 f3 f4 rf)
qed

section \<open>Timestamps as texts\<close>




lemma length_pad [simp]: "length (pad k n) = k"
  by (induction k arbitrary: n) auto





















section \<open>CredentialResolver: the bearer API key\<close>






text \<open>
  C2, as stated, fails: ``if the matching row is disabled or its expiresAt lies at or
  before the current time, resolution yields no Principal''. The code compares the stored
  text with the text of \<^verbatim>\<open>asIsoNow()\<close>, not two instants. A key whose expiry is stored in
  the full form that \<^verbatim>\<open>toISOString()\<close> prints still resolves at the very instant of its
  expiry, because \<^verbatim>\<open>asIsoNow()\<close> drops \<^verbatim>\<open>.000Z\<close> from the clock and the longer text is the
  greater one; and a key whose expiry is 09:00 at the offset +09:00, which is 00:00 UTC,
  still resolves at 05:00 UTC, five hours later.
\<close>

theorem expiry_is_compared_as_text:
  "ExpiresAt key_row_utc = Some (toISOString end_of_june)
   \<and> toBool (KeyEnabled key_row_utc)
   \<and> resolveApiKeyUser demo_runtime (toISOString end_of_june) [key_row_utc] bearer_request
       = Some \<lparr> username = ''apikey:scanner'', role = User \<rparr>
   \<and> ExpiresAt key_row_offset = Some ''2026-06-30T09:00:00+09:00''
   \<and> resolveApiKeyUser demo_runtime ''2026-06-30T05:00:00.000Z'' [key_row_offset] bearer_request
       = Some \<lparr> username = ''apikey:scanner'', role = User \<rparr>"
proof -
  have a: "ExpiresAt key_row_utc = Some (toISOString end_of_june)" by code_simp
  have b: "toBool (KeyEnabled key_row_utc)" by code_simp
  have c: "resolveApiKeyUser demo_runtime (toISOString end_of_june) [key_row_utc] bearer_request
       = Some \<lparr> username = ''apikey:scanner'', role = User \<rparr>" by code_simp
  have d: "ExpiresAt key_row_offset = Some ''2026-06-30T09:00:00+09:00''" by code_simp
  have e: "resolveApiKeyUser demo_runtime ''2026-06-30T05:00:00.000Z'' [key_row_offset] bearer_request
       = Some \<lparr> username = ''apikey:scanner'', role = User \<rparr>" by code_simp
  show ?thesis by (intro conjI a b c d e)
qed



section \<open>CredentialResolver: the cookie session\<close>

lemma percent_items_plain: "CHR ''%'' \<notin> set s \<Longrightarrow> percent_items s = Inr (map Literal s)"
  by (induction s) auto

lemma utf8_items_literals: "utf8_items (map Literal s) = Inr s"
  by (induction s) auto

lemma decode_plain: "CHR ''%'' \<notin> set s \<Longrightarrow> decodeURIComponent s = Inr s"
  by (simp add: decodeURIComponent_def percent_items_plain utf8_items_literals)

text \<open>A request whose only cookie is the session cookie, with a value that needs no
  escaping, carries that value as its session token.\<close>

lemma session_cookie_token:
  assumes h: "req_headers req ''cookie'' = Some (''yokins_session='' @ t)"
    and t: "\<forall>c \<in> set t. c \<noteq> CHR '';'' \<and> c \<noteq> CHR ''='' \<and> c \<noteq> CHR ''%'' \<and> \<not> ws_byte c"
  shows "getSessionTokenFromRequest req = Inr t"
proof -
  let ?n = "''yokins_session''"
  have nn: "\<forall>c \<in> set (?n @ ''=''). \<not> ws_byte c" by code_simp
  have nws: "\<forall>c \<in> set (?n @ CHR ''='' # t). \<not> ws_byte c"
    using t nn by auto
  have tr: "trim (?n @ CHR ''='' # t) = ?n @ CHR ''='' # t"
    using nws by (rule trim_no_ws)
  have "CHR '';'' \<notin> set (?n @ CHR ''='' # t)" using t by auto
  then have sp: "split_on CHR '';'' (?n @ CHR ''='' # t) = [?n @ CHR ''='' # t]"
    by (rule split_on_no_sep)
  have "CHR ''='' \<notin> set ?n" by simp
  then have "split_on CHR ''='' (?n @ CHR ''='' # t) = ?n # split_on CHR ''='' t"
    by (rule split_on_append)
  moreover have "split_on CHR ''='' t = [t]" using t by (intro split_on_no_sep) auto
  ultimately have se: "split_on CHR ''='' (?n @ CHR ''='' # t) = [?n, t]" by simp
  have tn: "trim ?n = ?n" by code_simp
  have tt: "trim t = t" using t by (intro trim_no_ws) auto
  have de: "decodeURIComponent t = Inr t" using t by (intro decode_plain) auto
  have pp: "parse_pairs [?n @ CHR ''='' # t] Map.empty = Inr [?n \<mapsto> t]"
    by (simp only: parse_pairs.simps se list.case Let_def tn join.simps tt de sum.case)
       simp
  have "parseCookies (Some (?n @ CHR ''='' # t)) = Inr [?n \<mapsto> t]"
    unfolding parseCookies_def option.case tr Let_def sp pp by simp
  then show ?thesis
    using h tt by (simp add: getSessionTokenFromRequest_def SESSION_COOKIE_NAME_def)
qed

lemma sealed_token_chars:
  "c \<in> set (encryptSessionPayload rt key iv payload) \<Longrightarrow>
     c \<noteq> CHR '';'' \<and> c \<noteq> CHR ''='' \<and> c \<noteq> CHR ''%'' \<and> \<not> ws_byte c"
proof -
  assume c: "c \<in> set (encryptSessionPayload rt key iv payload)"
  obtain e a where g: "gcm_encrypt rt key iv (utf8 (json_stringify rt payload)) = (e, a)"
    by (cases "gcm_encrypt rt key iv (utf8 (json_stringify rt payload))")
  from c g have "c \<in> set (toBase64Url iv) \<or> c \<in> set (toBase64Url e) \<or> c \<in> set (toBase64Url a)
                  \<or> c = CHR ''.''"
    by (auto simp: encryptSessionPayload_def)
  moreover have "\<not> ws_byte CHR ''.''" by code_simp
  ultimately show ?thesis using toBase64Url_chars[of c] by auto
qed

lemma sealed_token_nonempty: "encryptSessionPayload rt key iv payload \<noteq> []"
  by (cases "gcm_encrypt rt key iv (utf8 (json_stringify rt payload))")
     (simp add: encryptSessionPayload_def)

text \<open>What \<^verbatim>\<open>resolveSessionUser\<close> does once the token has opened to a payload.\<close>

lemma resolve_opened:
  assumes "getSessionTokenFromRequest req = Inr token" and "token \<noteq> []"
    and "decryptSessionPayload rt key token = Inr payload"
  shows "resolveSessionUser rt key now users req =
     (case js_string rt (nullish_or (get_prop payload ''sub'') (JStr [])) of
        Inl e \<Rightarrow> Inl e
      | Inr sub \<Rightarrow>
          (case js_number rt (get_prop payload ''exp'') of
             Inl e \<Rightarrow> Inl e
           | Inr expiresAt \<Rightarrow>
               (if get_prop payload ''ver'' \<noteq> JNum (Finite 1) \<or> trim sub = []
                   \<or> (case expiresAt of Finite e \<Rightarrow> e \<le> of_int now | _ \<Rightarrow> True)
                then Inr None
                else (case get_user users (trim sub) of
                        None \<Rightarrow> Inr None
                      | Some row \<Rightarrow> if \<not> toBool (Enabled row) then Inr None
                                    else Inr (Some (buildSessionUser row))))))"
proof (cases "js_string rt (nullish_or (get_prop payload ''sub'') (JStr []))")
  case (Inl e)
  with assms show ?thesis by (simp add: resolveSessionUser_def)
next
  case s: (Inr sub)
  show ?thesis
  proof (cases "js_number rt (get_prop payload ''exp'')")
    case (Inl e)
    with s assms show ?thesis by (simp add: resolveSessionUser_def)
  next
    case (Inr expiresAt)
    with s assms show ?thesis
      by (simp add: resolveSessionUser_def SESSION_TOKEN_VERSION_def Let_def)
  qed
qed

lemma get_user_name: "get_user users u = Some row \<Longrightarrow> UserName row = u"
  by (auto simp: get_user_def find_Some_iff)

text \<open>
  C1. For every request that carries a token which opens (it is sealed under the process
  key) to a payload of version 1 whose expiry is a finite number later than the current
  time and whose subject, as text and trimmed, is the non-empty name \<open>userName\<close>: if an
  account of that name exists and is enabled, the request resolves to the Principal of
  that name whose role is admin exactly when the account's \<^verbatim>\<open>IsAdmin\<close> is set, and
  user otherwise; if the account is deleted or disabled at resolution time, the same
  token resolves to no Principal.
\<close>

theorem session_resolution:
  assumes "getSessionTokenFromRequest req = Inr token" and "token \<noteq> []"
    and "decryptSessionPayload rt key token = Inr payload"
    and "get_prop payload ''ver'' = JNum (Finite 1)"
    and "js_number rt (get_prop payload ''exp'') = Inr (Finite e)" and "of_int now < e"
    and "js_string rt (nullish_or (get_prop payload ''sub'') (JStr [])) = Inr sub"
    and "trim sub = userName" and "userName \<noteq> []"
  shows "(\<forall>row. get_user users userName = Some row \<and> toBool (Enabled row) \<longrightarrow>
            resolveSessionUser rt key now users req
              = Inr (Some \<lparr> username = userName,
                             role = (if toBool (IsAdmin row) then Admin else User) \<rparr>))
       \<and> (get_user users userName = None \<longrightarrow> resolveSessionUser rt key now users req = Inr None)
       \<and> (\<forall>row. get_user users userName = Some row \<and> \<not> toBool (Enabled row) \<longrightarrow>
            resolveSessionUser rt key now users req = Inr None)"
proof -
  note r = resolve_opened[OF assms(1,2,3), of now users]
  have ne: "\<not> e \<le> of_int now" using assms(6) by simp
  show ?thesis
  proof (intro conjI allI impI)
    fix row
    assume a: "get_user users userName = Some row \<and> toBool (Enabled row)"
    then have "UserName row = userName" using get_user_name by blast
    with a show "resolveSessionUser rt key now users req
              = Inr (Some \<lparr> username = userName,
                             role = (if toBool (IsAdmin row) then Admin else User) \<rparr>)"
      using assms(4,5,7,8,9) ne by (simp add: r buildSessionUser_def)
  next
    assume "get_user users userName = None"
    then show "resolveSessionUser rt key now users req = Inr None"
      using assms(4,5,7,8,9) ne by (simp add: r)
  next
    fix row
    assume "get_user users userName = Some row \<and> \<not> toBool (Enabled row)"
    then show "resolveSessionUser rt key now users req = Inr None"
      using assms(4,5,7,8,9) ne by (simp add: r)
  qed
qed

theorem session_resolution_witness:
  "getSessionTokenFromRequest cookie_request = Inr session_token
   \<and> session_token \<noteq> []
   \<and> decryptSessionPayload demo_runtime demo_key session_token = Inr demo_payload
   \<and> get_prop demo_payload ''ver'' = JNum (Finite 1)
   \<and> js_number demo_runtime (get_prop demo_payload ''exp'') = Inr (Finite 1767290400000)
   \<and> js_string demo_runtime (nullish_or (get_prop demo_payload ''sub'') (JStr [])) = Inr ''tanaka''
   \<and> trim ''tanaka'' = ''tanaka''
   \<and> get_user [admin_row, tanaka_row] ''tanaka'' = Some tanaka_row
   \<and> toBool (Enabled tanaka_row)
   \<and> resolveSessionUser demo_runtime demo_key 1767261600001 [admin_row, tanaka_row] cookie_request
       = Inr (Some \<lparr> username = ''tanaka'', role = User \<rparr>)
   \<and> resolveSessionUser demo_runtime demo_key 1767261600001 [tanaka_row\<lparr>IsAdmin := 1\<rparr>] cookie_request
       = Inr (Some \<lparr> username = ''tanaka'', role = Admin \<rparr>)
   \<and> get_user [admin_row] ''tanaka'' = None
   \<and> resolveSessionUser demo_runtime demo_key 1767261600001 [admin_row] cookie_request = Inr None
   \<and> \<not> toBool (Enabled (tanaka_row\<lparr>Enabled := 0\<rparr>))
   \<and> resolveSessionUser demo_runtime demo_key 1767261600001 [tanaka_row\<lparr>Enabled := 0\<rparr>] cookie_request
       = Inr None"
proof -
  have w1: "getSessionTokenFromRequest cookie_request = Inr session_token" by code_simp
  have w2: "session_token \<noteq> []" by (simp add: session_token_def)
  have w3: "decryptSessionPayload demo_runtime demo_key session_token = Inr demo_payload"
    by code_simp
  have w4: "get_prop demo_payload ''ver'' = JNum (Finite 1)"
    by (simp add: demo_payload_def session_payload_def get_prop_def SESSION_TOKEN_VERSION_def)
  have w5: "js_number demo_runtime (get_prop demo_payload ''exp'') = Inr (Finite 1767290400000)"
    by (simp add: demo_payload_def session_payload_def get_prop_def js_number_def
          SESSION_MAX_AGE_MS_def)
  have w6: "of_int 1767261600001 < (1767290400000 :: rat)" by simp
  have w7: "js_string demo_runtime (nullish_or (get_prop demo_payload ''sub'') (JStr []))
              = Inr ''tanaka''"
    by (simp add: demo_payload_def session_payload_def get_prop_def nullish_or_def)
  have w7': "trim ''tanaka'' = ''tanaka''" by code_simp
  have w8: "''tanaka'' \<noteq> []" by simp
  note T = session_resolution[OF w1 w2 w3 w4 w5 w6 w7 w7' w8]
  have u1: "get_user [admin_row, tanaka_row] ''tanaka'' = Some tanaka_row"
    by (simp add: get_user_def admin_row_def tanaka_row_def)
  have u2: "get_user [tanaka_row\<lparr>IsAdmin := 1\<rparr>] ''tanaka'' = Some (tanaka_row\<lparr>IsAdmin := 1\<rparr>)"
    by (simp add: get_user_def tanaka_row_def)
  have u3: "get_user [admin_row] ''tanaka'' = None"
    by (simp add: get_user_def admin_row_def)
  have u4: "get_user [tanaka_row\<lparr>Enabled := 0\<rparr>] ''tanaka'' = Some (tanaka_row\<lparr>Enabled := 0\<rparr>)"
    by (simp add: get_user_def tanaka_row_def)
  have e1: "toBool (Enabled tanaka_row)" "\<not> toBool (IsAdmin tanaka_row)"
    "toBool (Enabled (tanaka_row\<lparr>IsAdmin := 1\<rparr>))" "toBool (IsAdmin (tanaka_row\<lparr>IsAdmin := 1\<rparr>))"
    "\<not> toBool (Enabled (tanaka_row\<lparr>Enabled := 0\<rparr>))"
    by (simp_all add: toBool_def tanaka_row_def)
  have r1: "resolveSessionUser demo_runtime demo_key 1767261600001 [admin_row, tanaka_row]
              cookie_request = Inr (Some \<lparr> username = ''tanaka'', role = User \<rparr>)"
    using T[of "[admin_row, tanaka_row]", THEN conjunct1, rule_format, of tanaka_row] u1 e1
    by simp
  have r2: "resolveSessionUser demo_runtime demo_key 1767261600001 [tanaka_row\<lparr>IsAdmin := 1\<rparr>]
              cookie_request = Inr (Some \<lparr> username = ''tanaka'', role = Admin \<rparr>)"
    using T[of "[tanaka_row\<lparr>IsAdmin := 1\<rparr>]", THEN conjunct1, rule_format,
            of "tanaka_row\<lparr>IsAdmin := 1\<rparr>"] u2 e1
    by simp
  have r3: "resolveSessionUser demo_runtime demo_key 1767261600001 [admin_row] cookie_request
              = Inr None"
    using T[of "[admin_row]", THEN conjunct2, THEN conjunct1, rule_format] u3 by simp
  have r4: "resolveSessionUser demo_runtime demo_key 1767261600001 [tanaka_row\<lparr>Enabled := 0\<rparr>]
              cookie_request = Inr None"
    using T[of "[tanaka_row\<lparr>Enabled := 0\<rparr>]", THEN conjunct2, THEN conjunct2, rule_format,
            of "tanaka_row\<lparr>Enabled := 0\<rparr>"] u4 e1
    by simp
  show ?thesis
    by (intro conjI w1 w2 w3 w4 w5 w7 w7' u1 e1(1) r1 r2 u3 r3 e1(5) r4)
qed


section \<open>Sessions expire on the server\<close>

text \<open>The cookie of a login that succeeds: the account is the enabled one the request
  names, with the right password, and the token is made for it with the
  \<^verbatim>\<open>rememberMe\<close> of the request.\<close>

lemma login_cookie:
  assumes "login rt key iv now api_https users req = Inr (res, Some c)"
  shows "\<exists>(row :: user_row) u pw.
      js_string rt (nullish_or (get_prop (req_body req) ''username'') (JStr [])) = Inr u
      \<and> js_string rt (nullish_or (get_prop (req_body req) ''password'') (JStr [])) = Inr pw
      \<and> get_user users (trim u) = Some row \<and> toBool (Enabled row)
      \<and> PasswordHash row = Some (hashPassword rt (trim pw) (PasswordSalt row))
      \<and> c = setSessionCookie api_https
              (createSessionToken rt key iv (UserName row)
                 (js_truthy (get_prop (req_body req) ''rememberMe'')) now)
              (js_truthy (get_prop (req_body req) ''rememberMe''))"
proof -
  let ?rm = "js_truthy (get_prop (req_body req) ''rememberMe'')"
  from assms obtain u where u:
    "js_string rt (nullish_or (get_prop (req_body req) ''username'') (JStr [])) = Inr u"
    by (cases "js_string rt (nullish_or (get_prop (req_body req) ''username'') (JStr []))")
       (auto simp: login_def)
  from assms u obtain pw where pw:
    "js_string rt (nullish_or (get_prop (req_body req) ''password'') (JStr [])) = Inr pw"
    by (cases "js_string rt (nullish_or (get_prop (req_body req) ''password'') (JStr []))")
       (auto simp: login_def)
  from assms u pw obtain row where g: "get_user users (trim u) = Some row"
    by (cases "get_user users (trim u)") (auto simp: login_def Let_def split: if_splits)
  from assms u pw g have
    "toBool (Enabled row) \<and> PasswordHash row = Some (hashPassword rt (trim pw) (PasswordSalt row))
     \<and> c = setSessionCookie api_https (createSessionToken rt key iv (UserName row) ?rm now) ?rm"
    by (auto simp: login_def Let_def split: if_splits)
  with u pw g show ?thesis by blast
qed

lemma login_succeeds:
  assumes "js_string rt (nullish_or (get_prop (req_body req) ''username'') (JStr [])) = Inr u"
    and "js_string rt (nullish_or (get_prop (req_body req) ''password'') (JStr [])) = Inr pw"
    and "trim u \<noteq> []" and "trim pw \<noteq> []"
    and "get_user users (trim u) = Some row" and "toBool (Enabled row)"
    and "PasswordHash row = Some (hashPassword rt (trim pw) (PasswordSalt row))"
  shows "login rt key iv now api_https users req
           = Inr (Response 200
                    (JObj [(''username'', JStr (UserName row)),
                           (''role'', JStr (if toBool (IsAdmin row) then ''admin'' else ''user''))]),
                  Some (setSessionCookie api_https
                    (createSessionToken rt key iv (UserName row)
                       (js_truthy (get_prop (req_body req) ''rememberMe'')) now)
                    (js_truthy (get_prop (req_body req) ''rememberMe''))))"
  using assms by (simp add: login_def Let_def)

text \<open>
  C10. The payload that login seals (\<^verbatim>\<open>createSessionToken\<close>) carries the expiry
  \<open>issued + 2592000000\<close> ms (30 days) when \<^verbatim>\<open>rememberMe\<close> is set and
  \<open>issued + 28800000\<close> ms (8 hours) otherwise. A request that carries the sealed token
  resolves to no Principal at every time at or after that instant, whatever the accounts
  are, and before it resolves to the Principal of the enabled account of that name. The
  cookie has a max-age (of 30 days) only when \<^verbatim>\<open>rememberMe\<close> is set, so a session that
  is not remembered ends on the server after 8 hours although its cookie has no max-age.
  Login makes its token in this way: a login sets a cookie exactly for the enabled
  account that the request names with its password, and the cookie and the token in it
  are made with the \<^verbatim>\<open>rememberMe\<close> of the request, as a boolean, at the time of the
  login. The runtime is assumed to do at this payload what its documentation says: a
  12-byte nonce, a 16-byte tag, decryption inverts encryption, parsing inverts
  \<^verbatim>\<open>JSON.stringify\<close>.
\<close>

theorem session_expiry:
  assumes "length iv = 12"
    and "gcm_encrypt rt key iv (utf8 (json_stringify rt (session_payload userName rememberMe issued)))
           = (encrypted, authTag)"
    and "length authTag = 16"
    and "gcm_decrypt rt key iv encrypted authTag
           = Some (utf8 (json_stringify rt (session_payload userName rememberMe issued)))"
    and "json_parse rt (utf8 (json_stringify rt (session_payload userName rememberMe issued)))
           = Some (session_payload userName rememberMe issued)"
    and "getSessionTokenFromRequest req
           = Inr (createSessionToken rt key iv userName rememberMe issued)"
  shows "get_prop (session_payload userName rememberMe issued) ''exp''
           = JNum (Finite (of_int (issued + (if rememberMe then 2592000000 else 28800000))))
       \<and> (issued + (if rememberMe then 2592000000 else 28800000) \<le> now \<longrightarrow>
            resolveSessionUser rt key now users req = Inr None)
       \<and> (\<forall>row. now < issued + (if rememberMe then 2592000000 else 28800000)
              \<and> trim userName \<noteq> [] \<and> get_user users (trim userName) = Some row
              \<and> toBool (Enabled row) \<longrightarrow>
            resolveSessionUser rt key now users req = Inr (Some (buildSessionUser row)))
       \<and> maxAge (snd (snd (setSessionCookie api_https
                    (createSessionToken rt key iv userName rememberMe issued) rememberMe)))
           = (if rememberMe then Some 2592000000 else None)
       \<and> (\<forall>login_req res c.
            login rt key iv issued api_https users login_req = Inr (res, Some c) \<longrightarrow>
            (\<exists>(row :: user_row) u pw.
               js_string rt (nullish_or (get_prop (req_body login_req) ''username'') (JStr []))
                 = Inr u
               \<and> js_string rt (nullish_or (get_prop (req_body login_req) ''password'') (JStr []))
                   = Inr pw
               \<and> get_user users (trim u) = Some row \<and> toBool (Enabled row)
               \<and> PasswordHash row = Some (hashPassword rt (trim pw) (PasswordSalt row))
               \<and> c = setSessionCookie api_https
                       (createSessionToken rt key iv (UserName row)
                          (js_truthy (get_prop (req_body login_req) ''rememberMe'')) issued)
                       (js_truthy (get_prop (req_body login_req) ''rememberMe''))))
       \<and> (\<forall>login_req (row :: user_row) u pw.
            js_string rt (nullish_or (get_prop (req_body login_req) ''username'') (JStr []))
              = Inr u
            \<and> js_string rt (nullish_or (get_prop (req_body login_req) ''password'') (JStr []))
                = Inr pw
            \<and> trim u \<noteq> [] \<and> trim pw \<noteq> []
            \<and> get_user users (trim u) = Some row \<and> toBool (Enabled row)
            \<and> PasswordHash row = Some (hashPassword rt (trim pw) (PasswordSalt row)) \<longrightarrow>
            login rt key iv issued api_https users login_req
              = Inr (Response 200
                       (JObj [(''username'', JStr (UserName row)),
                              (''role'', JStr (if toBool (IsAdmin row) then ''admin'' else ''user''))]),
                     Some (setSessionCookie api_https
                       (createSessionToken rt key iv (UserName row)
                          (js_truthy (get_prop (req_body login_req) ''rememberMe'')) issued)
                       (js_truthy (get_prop (req_body login_req) ''rememberMe'')))))"
proof -
  let ?P = "session_payload userName rememberMe issued"
  let ?ttl = "if rememberMe then 2592000000 else (28800000 :: int)"
  have obj: "js_truthy ?P \<and> js_typeof ?P = ''object''"
    by (simp add: session_payload_def Let_def js_truthy_def js_typeof_def)
  have op: "decryptSessionPayload rt key (createSessionToken rt key iv userName rememberMe issued)
              = Inr ?P"
    unfolding createSessionToken_def using assms(1-5) obj by (rule seal_open)
  have ne: "createSessionToken rt key iv userName rememberMe issued \<noteq> []"
    unfolding createSessionToken_def by (rule sealed_token_nonempty)
  have ex: "get_prop ?P ''exp'' = JNum (Finite (of_int (issued + ?ttl)))"
    by (simp add: session_payload_def Let_def get_prop_def REMEMBER_ME_MAX_AGE_MS_def
          SESSION_MAX_AGE_MS_def)
  have ve: "get_prop ?P ''ver'' = JNum (Finite 1)"
    by (simp add: session_payload_def Let_def get_prop_def SESSION_TOKEN_VERSION_def)
  have su: "js_string rt (nullish_or (get_prop ?P ''sub'') (JStr [])) = Inr userName"
    by (simp add: session_payload_def Let_def get_prop_def nullish_or_def)
  have nu: "js_number rt (get_prop ?P ''exp'') = Inr (Finite (of_int (issued + ?ttl)))"
    unfolding ex by (simp add: js_number_def)
  have le: "((of_int (issued + ?ttl) :: rat) \<le> of_int now) = (issued + ?ttl \<le> now)"
    by (rule of_int_le_iff)
  have r: "resolveSessionUser rt key now users req =
     (if trim userName = [] \<or> issued + ?ttl \<le> now then Inr None
      else (case get_user users (trim userName) of
              None \<Rightarrow> Inr None
            | Some row \<Rightarrow> if \<not> toBool (Enabled row) then Inr None
                          else Inr (Some (buildSessionUser row))))"
    unfolding resolve_opened[OF assms(6) ne op, of now users] su nu ve sum.case jsnum.case le
    by simp
  show ?thesis
  proof (intro conjI allI impI)
    show "get_prop ?P ''exp'' = JNum (Finite (of_int (issued + ?ttl)))" by (rule ex)
  next
    assume "issued + ?ttl \<le> now"
    then show "resolveSessionUser rt key now users req = Inr None"
      unfolding r by simp
  next
    fix row
    assume a: "now < issued + ?ttl \<and> trim userName \<noteq> [] \<and> get_user users (trim userName) = Some row
              \<and> toBool (Enabled row)"
    then have "\<not> (issued + ?ttl \<le> now)" by simp
    with a show "resolveSessionUser rt key now users req = Inr (Some (buildSessionUser row))"
      unfolding r by simp
  next
    show "maxAge (snd (snd (setSessionCookie api_https
                    (createSessionToken rt key iv userName rememberMe issued) rememberMe)))
           = (if rememberMe then Some 2592000000 else None)"
      by (simp add: setSessionCookie_def REMEMBER_ME_MAX_AGE_MS_def)
  next
    fix login_req res c
    assume "login rt key iv issued api_https users login_req = Inr (res, Some c)"
    then show "\<exists>(row :: user_row) u pw.
               js_string rt (nullish_or (get_prop (req_body login_req) ''username'') (JStr []))
                 = Inr u
               \<and> js_string rt (nullish_or (get_prop (req_body login_req) ''password'') (JStr []))
                   = Inr pw
               \<and> get_user users (trim u) = Some row \<and> toBool (Enabled row)
               \<and> PasswordHash row = Some (hashPassword rt (trim pw) (PasswordSalt row))
               \<and> c = setSessionCookie api_https
                       (createSessionToken rt key iv (UserName row)
                          (js_truthy (get_prop (req_body login_req) ''rememberMe'')) issued)
                       (js_truthy (get_prop (req_body login_req) ''rememberMe''))"
      by (rule login_cookie)
  next
    fix login_req :: request and row :: user_row and u pw
    assume h: "js_string rt (nullish_or (get_prop (req_body login_req) ''username'') (JStr []))
              = Inr u
            \<and> js_string rt (nullish_or (get_prop (req_body login_req) ''password'') (JStr []))
                = Inr pw
            \<and> trim u \<noteq> [] \<and> trim pw \<noteq> []
            \<and> get_user users (trim u) = Some row \<and> toBool (Enabled row)
            \<and> PasswordHash row = Some (hashPassword rt (trim pw) (PasswordSalt row))"
    then show "login rt key iv issued api_https users login_req
              = Inr (Response 200
                       (JObj [(''username'', JStr (UserName row)),
                              (''role'', JStr (if toBool (IsAdmin row) then ''admin'' else ''user''))]),
                     Some (setSessionCookie api_https
                       (createSessionToken rt key iv (UserName row)
                          (js_truthy (get_prop (req_body login_req) ''rememberMe'')) issued)
                       (js_truthy (get_prop (req_body login_req) ''rememberMe''))))"
      by (intro login_succeeds[of rt login_req u pw users row]) simp_all
  qed
qed

theorem session_expiry_witness:
  "length demo_iv = 12
   \<and> getSessionTokenFromRequest cookie_request
       = Inr (createSessionToken demo_runtime demo_key demo_iv ''tanaka'' False issued_at)
   \<and> get_prop (session_payload ''tanaka'' False issued_at) ''exp''
       = JNum (Finite (of_int (issued_at + 28800000)))
   \<and> resolveSessionUser demo_runtime demo_key (issued_at + 28800000) [tanaka_row] cookie_request
       = Inr None
   \<and> get_user [tanaka_row] (trim ''tanaka'') = Some tanaka_row
   \<and> resolveSessionUser demo_runtime demo_key (issued_at + 28799999) [tanaka_row] cookie_request
       = Inr (Some (buildSessionUser tanaka_row))
   \<and> maxAge (snd (snd (setSessionCookie None
         (createSessionToken demo_runtime demo_key demo_iv ''tanaka'' False issued_at) False)))
       = None
   \<and> login demo_runtime demo_key demo_iv issued_at None [tanaka_row] login_request
       = Inr (Response 200 (JObj [(''username'', JStr ''tanaka''), (''role'', JStr ''user'')]),
              Some (setSessionCookie None
                (createSessionToken demo_runtime demo_key demo_iv ''tanaka'' False issued_at) False))
   \<and> getSessionTokenFromRequest remember_cookie_request
       = Inr (createSessionToken demo_runtime demo_key demo_iv ''tanaka'' True issued_at)
   \<and> get_prop (session_payload ''tanaka'' True issued_at) ''exp''
       = JNum (Finite (of_int (issued_at + 2592000000)))
   \<and> resolveSessionUser demo_runtime demo_key (issued_at + 28800000) [tanaka_row]
        remember_cookie_request = Inr (Some (buildSessionUser tanaka_row))
   \<and> resolveSessionUser demo_runtime demo_key (issued_at + 2591999999) [tanaka_row]
        remember_cookie_request = Inr (Some (buildSessionUser tanaka_row))
   \<and> resolveSessionUser demo_runtime demo_key (issued_at + 2592000000) [tanaka_row]
        remember_cookie_request = Inr None
   \<and> maxAge (snd (snd (setSessionCookie None
         (createSessionToken demo_runtime demo_key demo_iv ''tanaka'' True issued_at) True)))
       = Some 2592000000
   \<and> js_truthy (get_prop (req_body remember_login_request) ''rememberMe'')
   \<and> login demo_runtime demo_key demo_iv issued_at None [tanaka_row] remember_login_request
       = Inr (Response 200 (JObj [(''username'', JStr ''tanaka''), (''role'', JStr ''user'')]),
              Some (setSessionCookie None
                (createSessionToken demo_runtime demo_key demo_iv ''tanaka'' True issued_at) True))"
proof -
  have a: "length demo_iv = 12" by (simp add: demo_iv_def)
  have c: "length (replicate 16 (0::byte)) = 16" by simp
  have sp: "session_payload ''tanaka'' False issued_at = demo_payload"
    by (simp add: demo_payload_def issued_at_def)
  have b: "gcm_encrypt demo_runtime demo_key demo_iv
             (utf8 (json_stringify demo_runtime (session_payload ''tanaka'' False issued_at)))
             = (utf8 ''{session}'', replicate 16 0)"
    by (simp add: sp demo_runtime_def)
  have d: "gcm_decrypt demo_runtime demo_key demo_iv (utf8 ''{session}'') (replicate 16 0)
             = Some (utf8 (json_stringify demo_runtime (session_payload ''tanaka'' False issued_at)))"
    by (simp add: sp demo_runtime_def)
  have e: "json_parse demo_runtime
             (utf8 (json_stringify demo_runtime (session_payload ''tanaka'' False issued_at)))
             = Some (session_payload ''tanaka'' False issued_at)"
    by (simp add: sp demo_runtime_def)
  have f: "getSessionTokenFromRequest cookie_request
             = Inr (createSessionToken demo_runtime demo_key demo_iv ''tanaka'' False issued_at)"
    by code_simp
  have sp': "session_payload ''tanaka'' True issued_at = remember_payload"
    by (simp add: remember_payload_def issued_at_def)
  have ne: "remember_payload \<noteq> demo_payload" by code_simp
  have b': "gcm_encrypt demo_runtime demo_key demo_iv
             (utf8 (json_stringify demo_runtime (session_payload ''tanaka'' True issued_at)))
             = (utf8 ''{remember}'', replicate 16 0)"
    using ne by (simp add: sp' demo_runtime_def)
  have d': "gcm_decrypt demo_runtime demo_key demo_iv (utf8 ''{remember}'') (replicate 16 0)
             = Some (utf8 (json_stringify demo_runtime (session_payload ''tanaka'' True issued_at)))"
    using ne by (simp add: sp' demo_runtime_def)
  have pe: "utf8 ''{remember}'' \<noteq> utf8 ''{session}''" by code_simp
  have e': "json_parse demo_runtime
             (utf8 (json_stringify demo_runtime (session_payload ''tanaka'' True issued_at)))
             = Some (session_payload ''tanaka'' True issued_at)"
    using ne pe by (simp add: sp' demo_runtime_def)
  have f': "getSessionTokenFromRequest remember_cookie_request
             = Inr (createSessionToken demo_runtime demo_key demo_iv ''tanaka'' True issued_at)"
    by code_simp
  note T = session_expiry[OF a b c d e f]
  note R = session_expiry[OF a b' c d' e' f']
  have u: "get_user [tanaka_row] (trim ''tanaka'') = Some tanaka_row" by code_simp
  have en: "toBool (Enabled tanaka_row)" by (simp add: toBool_def tanaka_row_def)
  have tn: "trim ''tanaka'' \<noteq> []" by code_simp
  have r0: "get_prop (session_payload ''tanaka'' False issued_at) ''exp''
              = JNum (Finite (of_int (issued_at + 28800000)))"
    using T[of 0 "[]" None, THEN conjunct1] by simp
  have r1: "resolveSessionUser demo_runtime demo_key (issued_at + 28800000) [tanaka_row]
              cookie_request = Inr None"
    using T[of "issued_at + 28800000" "[tanaka_row]" None, THEN conjunct2, THEN conjunct1]
    by simp
  have r2: "resolveSessionUser demo_runtime demo_key (issued_at + 28799999) [tanaka_row]
              cookie_request = Inr (Some (buildSessionUser tanaka_row))"
    using T[of "issued_at + 28799999" "[tanaka_row]" None, THEN conjunct2, THEN conjunct2,
            THEN conjunct1, rule_format, of tanaka_row] u en tn
    by simp
  have r3: "maxAge (snd (snd (setSessionCookie None
         (createSessionToken demo_runtime demo_key demo_iv ''tanaka'' False issued_at) False)))
       = None"
    using T[of 0 "[]" None, THEN conjunct2, THEN conjunct2, THEN conjunct2, THEN conjunct1]
    by simp
  have l1: "js_string demo_runtime (nullish_or (get_prop (req_body login_request) ''username'') (JStr []))
             = Inr ''tanaka''" by code_simp
  have l2: "js_string demo_runtime (nullish_or (get_prop (req_body login_request) ''password'') (JStr []))
             = Inr ''pass1234''" by code_simp
  have l3: "trim ''pass1234'' = ''pass1234''" "trim ''tanaka'' = ''tanaka''" by code_simp+
  have l4: "PasswordHash tanaka_row
              = Some (hashPassword demo_runtime (trim ''pass1234'') (PasswordSalt tanaka_row))"
    by (simp add: l3 tanaka_row_def)
  have l5: "\<not> js_truthy (get_prop (req_body login_request) ''rememberMe'')" by code_simp
  have l6: "UserName tanaka_row = ''tanaka''" "\<not> toBool (IsAdmin tanaka_row)"
    by (simp_all add: tanaka_row_def toBool_def)
  have r4: "login demo_runtime demo_key demo_iv issued_at None [tanaka_row] login_request
       = Inr (Response 200 (JObj [(''username'', JStr ''tanaka''), (''role'', JStr ''user'')]),
              Some (setSessionCookie None
                (createSessionToken demo_runtime demo_key demo_iv ''tanaka'' False issued_at) False))"
    using T[of 0 "[tanaka_row]" None, THEN conjunct2, THEN conjunct2, THEN conjunct2,
            THEN conjunct2, THEN conjunct2, rule_format,
            of login_request "''tanaka''" "''pass1234''" tanaka_row]
          l1 l2 l3 l4 l5 l6 u en
    by simp
  have q0: "get_prop (session_payload ''tanaka'' True issued_at) ''exp''
              = JNum (Finite (of_int (issued_at + 2592000000)))"
    using R[of 0 "[]" None, THEN conjunct1] by simp
  have q1: "resolveSessionUser demo_runtime demo_key (issued_at + 28800000) [tanaka_row]
              remember_cookie_request = Inr (Some (buildSessionUser tanaka_row))"
    using R[of "issued_at + 28800000" "[tanaka_row]" None, THEN conjunct2, THEN conjunct2,
            THEN conjunct1, rule_format, of tanaka_row] u en tn
    by simp
  have q2: "resolveSessionUser demo_runtime demo_key (issued_at + 2591999999) [tanaka_row]
              remember_cookie_request = Inr (Some (buildSessionUser tanaka_row))"
    using R[of "issued_at + 2591999999" "[tanaka_row]" None, THEN conjunct2, THEN conjunct2,
            THEN conjunct1, rule_format, of tanaka_row] u en tn
    by simp
  have q3: "resolveSessionUser demo_runtime demo_key (issued_at + 2592000000) [tanaka_row]
              remember_cookie_request = Inr None"
    using R[of "issued_at + 2592000000" "[tanaka_row]" None, THEN conjunct2, THEN conjunct1]
    by simp
  have q4: "maxAge (snd (snd (setSessionCookie None
         (createSessionToken demo_runtime demo_key demo_iv ''tanaka'' True issued_at) True)))
       = Some 2592000000"
    using R[of 0 "[]" None, THEN conjunct2, THEN conjunct2, THEN conjunct2, THEN conjunct1]
    by simp
  have m1: "js_string demo_runtime
              (nullish_or (get_prop (req_body remember_login_request) ''username'') (JStr []))
             = Inr '' tanaka''" by code_simp
  have m2: "js_string demo_runtime
              (nullish_or (get_prop (req_body remember_login_request) ''password'') (JStr []))
             = Inr ''pass1234''" by code_simp
  have m3: "trim '' tanaka'' = ''tanaka''" by code_simp
  have m5: "js_truthy (get_prop (req_body remember_login_request) ''rememberMe'')" by code_simp
  have q5: "login demo_runtime demo_key demo_iv issued_at None [tanaka_row] remember_login_request
       = Inr (Response 200 (JObj [(''username'', JStr ''tanaka''), (''role'', JStr ''user'')]),
              Some (setSessionCookie None
                (createSessionToken demo_runtime demo_key demo_iv ''tanaka'' True issued_at) True))"
    using R[of 0 "[tanaka_row]" None, THEN conjunct2, THEN conjunct2, THEN conjunct2,
            THEN conjunct2, THEN conjunct2, rule_format,
            of remember_login_request "'' tanaka''" "''pass1234''" tanaka_row]
          m1 m2 m3 l3 l4 m5 l6 u en
    by simp
  show ?thesis by (intro conjI a f r0 r1 u r2 r3 r4 f' q0 q1 q2 q3 q4 m5 q5)
qed

section \<open>Invalid credentials and the cookie header\<close>

text \<open>
  The middleware throws in two ways only: \<^verbatim>\<open>parseCookies\<close> throws on the cookie header, or
  the session token opens, sealed under the key, to a payload whose \<^verbatim>\<open>sub\<close> or \<^verbatim>\<open>exp\<close>
  cannot be converted.
\<close>

lemma middleware_throws:
  assumes "auth_middleware rt key now clock users apiKeys req = Inl e"
  shows "parseCookies (req_headers req ''cookie'') = Inl e
     \<or> (\<exists>token payload. getSessionTokenFromRequest req = Inr token \<and> token \<noteq> []
           \<and> decryptSessionPayload rt key token = Inr payload
           \<and> (js_string rt (nullish_or (get_prop payload ''sub'') (JStr [])) = Inl e
               \<or> js_number rt (get_prop payload ''exp'') = Inl e))"
proof -
  from assms have r: "resolveSessionUser rt key now users req = Inl e"
    by (auto simp: auth_middleware_def split: sum.splits option.splits)
  show ?thesis
  proof (cases "getSessionTokenFromRequest req")
    case (Inl e')
    with r have "e' = e" by (simp add: resolveSessionUser_def)
    with Inl have "parseCookies (req_headers req ''cookie'') = Inl e"
      by (auto simp: getSessionTokenFromRequest_def split: sum.splits)
    then show ?thesis ..
  next
    case (Inr token)
    with r have ne: "token \<noteq> []" by (auto simp: resolveSessionUser_def)
    obtain payload where p: "decryptSessionPayload rt key token = Inr payload"
      using open_total[of rt key token] by (elim exE)
    from r have "js_string rt (nullish_or (get_prop payload ''sub'') (JStr [])) = Inl e
               \<or> js_number rt (get_prop payload ''exp'') = Inl e"
      unfolding resolve_opened[OF Inr ne p, of now users]
      by (auto split: sum.splits if_splits option.splits)
    with Inr ne p show ?thesis by blast
  qed
qed

text \<open>
  C7 does not hold of the code. A \<^verbatim>\<open>Cookie\<close> header with a malformed percent escape in
  any cookie makes \<^verbatim>\<open>decodeURIComponent\<close> throw inside \<^verbatim>\<open>parseCookies\<close>, which has no
  \<^verbatim>\<open>try\<close>; the exception leaves the resolving middleware and the caller gets the error
  handler's 500, where a request without credentials gets 401.
\<close>

theorem malformed_cookie_escapes_the_resolver:
  "decodeURIComponent ''%'' = Inl URIError
   \<and> parseCookies (req_headers bad_cookie_request ''cookie'') = Inl URIError
   \<and> auth_middleware demo_runtime demo_key issued_at demo_clock [tanaka_row] [key_row]
        bad_cookie_request = Inl URIError
   \<and> handle_request demo_runtime demo_key issued_at demo_clock [tanaka_row] [key_row] ok_body
        bad_cookie_request = Response 500 (error_body ''internal server error'')
   \<and> handle_request demo_runtime demo_key issued_at demo_clock [tanaka_row] [key_row] ok_body
        documents_request = Response 401 (error_body ''authentication required'')"
proof -
  have a: "decodeURIComponent ''%'' = Inl URIError" by code_simp
  have b: "parseCookies (req_headers bad_cookie_request ''cookie'') = Inl URIError"
  proof -
    have "trim ''theme=%'' = ''theme=%''" "trim ''theme'' = ''theme''" "trim ''%'' = ''%''"
      by code_simp+
    then show ?thesis by (simp add: parseCookies_def bad_cookie_request_def a)
  qed
  have c: "auth_middleware demo_runtime demo_key issued_at demo_clock [tanaka_row] [key_row]
        bad_cookie_request = Inl URIError"
    by code_simp
  have d: "handle_request demo_runtime demo_key issued_at demo_clock [tanaka_row] [key_row] ok_body
        bad_cookie_request = Response 500 (error_body ''internal server error'')"
    by code_simp
  have e: "handle_request demo_runtime demo_key issued_at demo_clock [tanaka_row] [key_row] ok_body
        documents_request = Response 401 (error_body ''authentication required'')"
    by code_simp
  show ?thesis by (intro conjI a b c d e)
qed

section \<open>AuthorizationGate: authentication before role\<close>

lemma lower_char_slash [simp]: "lower_char c = CHR ''/'' \<longleftrightarrow> c = CHR ''/''"
  by (auto simp: lower_char_def split: option.splits dest!: map_of_SomeD)



















text \<open>
  C9, as stated, fails. ``For every API route outside the fixed public allowlist, a
  request that resolved to no Principal is rejected with the 401-equivalent before any
  handler body runs'': the allowlist holds paths, not routes, and the check does not
  look at the method. \<^verbatim>\<open>/documents/events\<close> is on the list for the event stream, a GET;
  a DELETE to the same path passes the check without a Principal and runs the handler of
  \<^verbatim>\<open>app.delete('/api/documents/:id', ...)\<close>, a route that is not on the list, with the id
  \<^verbatim>\<open>events\<close>. ``On every admin-scoped route a Principal whose role is not admin is
  rejected with the 403-equivalent'': the role check of the doc-class route is made by
  its handler, and a request whose \<^verbatim>\<open>:id\<close> is a malformed escape never reaches the
  handler; Express fails to decode the parameter and the error handler answers 500.
\<close>

theorem allowlisted_path_runs_other_route:
  "mounted_path ''/api'' (req_path delete_events_request) \<in> set publicApiPaths
   \<and> find_route routes (fold_case (req_method delete_events_request))
        (req_path delete_events_request)
       = Inr (Some ((''delete'', ''/api/documents/:id''), [''events'']))
   \<and> app_pipeline echo_body delete_events_request None
       = ([RanHandler],
          Inr (Response 200 (JObj [(''route'', JStr ''delete /api/documents/:id''),
                                   (''params'', JArr [JStr ''events''])])))
   \<and> to_doc_class_route bad_id_request
   \<and> role plain_user \<noteq> Admin
   \<and> app_pipeline echo_body bad_id_request (Some plain_user) = ([CheckedAuth], Inl URIError)
   \<and> answer (snd (app_pipeline echo_body bad_id_request (Some plain_user)))
       = Response 500 (error_body ''internal server error'')"
  by code_simp



end
